theory Spec2Isabelle
  imports Complex_Main
begin

section \<open>Strings\<close>

text \<open>
  A JavaScript string is modelled as a \<^typ>\<open>string\<close> whose characters are the code units
  0..255 (ASCII and Latin-1). \<open>length\<close> is the JavaScript \<open>.length\<close> of such a string.
\<close>

definition startsWith :: "string \<Rightarrow> string \<Rightarrow> bool" where
  "startsWith s k = (take (length k) s = k)"

definition endsWith :: "string \<Rightarrow> string \<Rightarrow> bool" where
  "endsWith s k = (length k \<le> length s \<and> drop (length s - length k) s = k)"

text \<open>\<open>s.includes(k)\<close>: \<open>k\<close> occurs in \<open>s\<close> as a contiguous substring.\<close>

fun js_includes :: "string \<Rightarrow> string \<Rightarrow> bool" where
  "js_includes [] k = (k = [])"
| "js_includes (c # s) k = (startsWith (c # s) k \<or> js_includes s k)"

text \<open>\<open>s.indexOf(k)\<close>, counted from the offset \<open>i\<close> of \<open>s\<close> in the whole string.\<close>

fun indexOf_from :: "nat \<Rightarrow> string \<Rightarrow> string \<Rightarrow> nat option" where
  "indexOf_from i [] k = (if k = [] then Some i else None)"
| "indexOf_from i (c # s) k =
     (if startsWith (c # s) k then Some i else indexOf_from (Suc i) s k)"

text \<open>
  The replacement text of \<open>String.prototype.replace\<close> with a string pattern (no capture
  groups): \<open>$$\<close> is a dollar sign, \<open>$&\<close> the matched text, \<open>$`\<close> the text before the match
  and \<open>$'\<close> the text after it; every other character stands for itself.
\<close>

fun getSubstitution :: "string \<Rightarrow> string \<Rightarrow> string \<Rightarrow> string \<Rightarrow> string" where
  "getSubstitution matched pre post [] = []"
| "getSubstitution matched pre post [c] = [c]"
| "getSubstitution matched pre post (c # d # r) =
     (if c = CHR ''$'' \<and> d = CHR ''$'' then CHR ''$'' # getSubstitution matched pre post r
      else if c = CHR ''$'' \<and> d = CHR ''&'' then matched @ getSubstitution matched pre post r
      else if c = CHR ''$'' \<and> d = CHR 0x60 then pre @ getSubstitution matched pre post r
      else if c = CHR ''$'' \<and> d = CHR 0x27 then post @ getSubstitution matched pre post r
      else c # getSubstitution matched pre post (d # r))"

text \<open>\<open>s.replace(pat, repl)\<close> with a string pattern: only the first occurrence is replaced.\<close>

definition replace :: "string \<Rightarrow> string \<Rightarrow> string \<Rightarrow> string" where
  "replace s pat repl =
     (case indexOf_from 0 s pat of
        None \<Rightarrow> s
      | Some i \<Rightarrow>
          take i s
          @ getSubstitution pat (take i s) (drop (i + length pat) s) repl
          @ drop (i + length pat) s)"

definition in_range :: "char \<Rightarrow> nat \<Rightarrow> nat \<Rightarrow> bool" where
  "in_range c lo hi = (lo \<le> of_char c \<and> (of_char c :: nat) \<le> hi)"

text \<open>
  \<open>toLowerCase\<close> and \<open>toUpperCase\<close> on the code units 0..255: the ASCII letters and the
  Latin-1 letters U+00C0..U+00DE (without the multiplication sign U+00D7) change case.
  The upper case of U+00B5, U+00DF and U+00FF lies outside 0..255; the strings upper-cased
  by the program (base-36 digits) are ASCII.
\<close>

definition lower_char :: "char \<Rightarrow> char" where
  "lower_char c =
     (if in_range c 65 90 \<or> (in_range c 192 222 \<and> of_char c \<noteq> (215 :: nat))
      then char_of (of_char c + (32 :: nat)) else c)"

definition upper_char :: "char \<Rightarrow> char" where
  "upper_char c =
     (if in_range c 97 122 \<or> (in_range c 224 254 \<and> of_char c \<noteq> (247 :: nat))
      then char_of (of_char c - (32 :: nat)) else c)"

definition toLowerCase :: "string \<Rightarrow> string" where
  "toLowerCase s = map lower_char s"

definition toUpperCase :: "string \<Rightarrow> string" where
  "toUpperCase s = map upper_char s"

text \<open>White space and line terminators among the code units 0..255 (\<open>\s\<close>, \<open>trim\<close>).\<close>

definition isSpace :: "char \<Rightarrow> bool" where
  "isSpace c = (in_range c 9 13 \<or> of_char c = (32 :: nat) \<or> of_char c = (160 :: nat))"

definition trim :: "string \<Rightarrow> string" where
  "trim s = rev (dropWhile isSpace (rev (dropWhile isSpace s)))"

definition digit_char :: "nat \<Rightarrow> char" where
  "digit_char n = char_of (48 + n)"

text \<open>A natural number in decimal, as a template literal prints it.\<close>

fun show_nat :: "nat \<Rightarrow> string" where
  "show_nat n = (if n < 10 then [digit_char n] else show_nat (n div 10) @ [digit_char (n mod 10)])"

declare show_nat.simps [simp del]

text \<open>The last \<open>w\<close> decimal digits of \<open>n\<close>, with leading zeros (\<open>padStart(w, '0')\<close>).\<close>

fun dec_pad :: "nat \<Rightarrow> nat \<Rightarrow> string" where
  "dec_pad 0 n = []"
| "dec_pad (Suc w) n = dec_pad w (n div 10) @ [digit_char (n mod 10)]"

section \<open>Data model (types.ts)\<close>

datatype category = hvac | plumber | electrician | roofer | appliance | pest | general

datatype urgency = low | medium | high | emergency

record ProblemSummary =
  transcript :: string
  summary :: string
  category :: category
  urgency :: urgency
  symptoms :: "string list"
  modelSerial :: "string option"

text \<open>The string a category or an urgency is at run time.\<close>

fun category_str :: "category \<Rightarrow> string" where
  "category_str hvac = ''hvac''"
| "category_str plumber = ''plumber''"
| "category_str electrician = ''electrician''"
| "category_str roofer = ''roofer''"
| "category_str appliance = ''appliance''"
| "category_str pest = ''pest''"
| "category_str general = ''general''"

text \<open>
  The channel names of the program are one set of strings at run time; the model has one
  datatype for them. \<open>OutreachAttempt.channel\<close> ranges over \<open>sms\<close>, \<open>whatsapp\<close>, \<open>phone\<close>
  and \<open>email\<close>, the booking channels over \<open>phone\<close>, \<open>web_chat\<close>, \<open>whatsapp\<close> and \<open>sms\<close>.
\<close>

datatype channel = phone | web_chat | whatsapp | sms | email

fun channel_str :: "channel \<Rightarrow> string" where
  "channel_str phone = ''phone''"
| "channel_str web_chat = ''web_chat''"
| "channel_str whatsapp = ''whatsapp''"
| "channel_str sms = ''sms''"
| "channel_str email = ''email''"

text \<open>
  The three status types each have a value \<open>failed\<close>; the model names them
  \<open>attempt_failed\<close>, \<open>outreach_failed\<close> and \<open>booking_failed\<close>.
\<close>

datatype attempt_status = sent | delivered | replied | attempt_failed

datatype outreach_status = pending | in_progress | completed | outreach_failed

datatype booking_status = confirmed | tentative | booking_failed

datatype vendor_source = google | thumbtack | demo

record OutreachAttempt =
  channel :: channel
  timestamp :: string
  status :: attempt_status
  message :: "string option"
  response :: "string option"

text \<open>
  \<open>VendorData\<close>: the fields \<open>id\<close>, \<open>name\<close>, \<open>phone\<close> and \<open>category\<close> carry the prefix
  \<open>vendor_\<close>. An optional field that is absent is \<open>None\<close>. The review count and the service
  fee are whole numbers in the program.
\<close>

record VendorData =
  vendor_id :: string
  vendor_name :: string
  rating :: real
  reviewCount :: nat
  vendor_phone :: string
  website :: "string option"
  address :: string
  distance :: real
  vendor_category :: string
  hasWebChat :: bool
  hasWhatsApp :: bool
  hasSms :: "bool option"
  eta :: "string option"
  serviceFee :: "nat option"
  outreachStatus :: outreach_status
  outreachLog :: "OutreachAttempt list"
  source :: "vendor_source option"

record BookingLogEntry =
  entry_timestamp :: string
  entry_channel :: string
  action :: string
  entry_message :: string
  success :: bool

record BookingResult =
  booking_status :: booking_status
  booking_channel :: channel
  scheduledStartISO :: "string option"
  booking_notes :: string
  booking_log :: "BookingLogEntry list"
  confirmationNumber :: "string option"

text \<open>
  The channels that the declaration of \<open>BookingResult.channel\<close> in types.ts lists.
\<close>

definition BookingResult_channel :: "channel set" where
  "BookingResult_channel = {phone, web_chat, whatsapp}"

text \<open>\<open>maxAttempts\<close> is a number of rounds: a natural number.\<close>

record SimulationConfig =
  fastDemo :: bool
  randomSeed :: "real option"
  outreachSuccessRate :: real
  bookingSuccessRate :: real
  maxAttempts :: nat
  delayRange :: "real \<times> real"

text \<open>\<open>Partial<SimulationConfig>\<close>: every field may be absent.\<close>

record PartialConfig =
  fastDemo_opt :: "bool option"
  randomSeed_opt :: "real option"
  outreachSuccessRate_opt :: "real option"
  bookingSuccessRate_opt :: "real option"
  maxAttempts_opt :: "nat option"
  delayRange_opt :: "(real \<times> real) option"

section \<open>The environment\<close>

text \<open>
  What the program takes from the JavaScript run time is a parameter of the model:
  \<^item> \<open>Math_random env k\<close> is the result of the \<open>k\<close>-th call of \<open>Math.random()\<close>;
  \<^item> \<open>Date_now env k\<close> is the time value (milliseconds since the epoch, UTC) that the
    \<open>k\<close>-th \<open>new Date()\<close> reads from the clock;
  \<^item> \<open>localTZA env t isUTC\<close> is the offset of the local time zone, as in ECMAScript;
  \<^item> \<open>toString36 env x\<close> is \<open>x.toString(36)\<close>;
  \<^item> \<open>invalidTimeMessage env\<close> is the message of the \<open>RangeError\<close> that
    \<open>toISOString\<close> throws for an invalid date.
  The \<open>world\<close> counts the calls made so far. Timers (\<open>setTimeout\<close>) only wait; a single
  run of a simulator computes the same values whatever the delays are, so the model has
  no time beyond the order of the steps. Arithmetic on numbers is exact (\<^typ>\<open>real\<close>).
\<close>

record env =
  Math_random :: "nat \<Rightarrow> real"
  Date_now :: "nat \<Rightarrow> int"
  localTZA :: "int \<Rightarrow> bool \<Rightarrow> int"
  toString36 :: "real \<Rightarrow> string"
  invalidTimeMessage :: string

record world =
  rcount :: nat
  dcount :: nat

datatype error = RangeError string | TypeError string

text \<open>\<open>String(error)\<close>, as a template literal prints an error.\<close>

fun error_str :: "error \<Rightarrow> string" where
  "error_str (RangeError msg) = (if msg = [] then ''RangeError'' else ''RangeError: '' @ msg)"
| "error_str (TypeError msg) = (if msg = [] then ''TypeError'' else ''TypeError: '' @ msg)"

subsection \<open>Dates\<close>

text \<open>
  A \<open>Date\<close> object is its time value; \<open>None\<close> is the invalid date (\<open>NaN\<close>). The
  functions follow the ECMAScript definitions of \<open>Day\<close>, \<open>TimeWithinDay\<close>, \<open>MakeDay\<close>,
  \<open>LocalTime\<close>, \<open>UTC\<close> and \<open>TimeClip\<close> on the proleptic Gregorian calendar.
\<close>

type_synonym Date = "int option"

definition msPerDay :: int where
  "msPerDay = 86400000"

definition Day :: "int \<Rightarrow> int" where
  "Day t = t div msPerDay"

definition TimeWithinDay :: "int \<Rightarrow> int" where
  "TimeWithinDay t = t mod msPerDay"

text \<open>Year, month (1..12) and day of the month of a day number (days since 1970-01-01).\<close>

definition civil_from_days :: "int \<Rightarrow> int \<times> int \<times> int" where
  "civil_from_days z =
     (let z' = z + 719468;
          era = z' div 146097;
          doe = z' mod 146097;
          yoe = (doe - doe div 1460 + doe div 36524 - doe div 146096) div 365;
          y = yoe + era * 400;
          doy = doe - (365 * yoe + yoe div 4 - yoe div 100);
          mp = (5 * doy + 2) div 153;
          d = doy - (153 * mp + 2) div 5 + 1;
          m = (if mp < 10 then mp + 3 else mp - 9)
      in (if m \<le> 2 then y + 1 else y, m, d))"

text \<open>The day number of a year, month (1..12) and day of the month.\<close>

definition days_from_civil :: "int \<Rightarrow> int \<Rightarrow> int \<Rightarrow> int" where
  "days_from_civil y m d =
     (let y' = (if m \<le> 2 then y - 1 else y);
          era = y' div 400;
          yoe = y' - era * 400;
          doy = (153 * (if m > 2 then m - 3 else m + 9) + 2) div 5 + d - 1;
          doe = yoe * 365 + yoe div 4 - yoe div 100 + doy
      in era * 146097 + doe - 719468)"

definition TimeClip :: "int \<Rightarrow> Date" where
  "TimeClip t = (if \<bar>t\<bar> \<le> 8640000000000000 then Some t else None)"

definition LocalTime :: "env \<Rightarrow> int \<Rightarrow> int" where
  "LocalTime env t = t + localTZA env t True"

definition UTC :: "env \<Rightarrow> int \<Rightarrow> int" where
  "UTC env t = t - localTZA env t False"

text \<open>\<open>d.getDate()\<close>: the day of the month in local time, \<open>None\<close> for \<open>NaN\<close>.\<close>

definition getDate :: "env \<Rightarrow> Date \<Rightarrow> int option" where
  "getDate env d =
     (case d of
        None \<Rightarrow> None
      | Some tv \<Rightarrow> (case civil_from_days (Day (LocalTime env tv)) of (y, m, dt) \<Rightarrow> Some dt))"

text \<open>\<open>d.setDate(dt)\<close>: the new value of \<open>d\<close>.\<close>

definition setDate :: "env \<Rightarrow> Date \<Rightarrow> int option \<Rightarrow> Date" where
  "setDate env d dt =
     (case (d, dt) of
        (Some tv, Some n) \<Rightarrow>
          (let t = LocalTime env tv
           in case civil_from_days (Day t) of
                (y, m, _) \<Rightarrow>
                  TimeClip (UTC env ((days_from_civil y m 1 + n - 1) * msPerDay + TimeWithinDay t)))
      | _ \<Rightarrow> None)"

text \<open>\<open>d.setHours(h, 0, 0, 0)\<close>: the new value of \<open>d\<close>.\<close>

definition setHours :: "env \<Rightarrow> Date \<Rightarrow> int \<Rightarrow> Date" where
  "setHours env d h =
     (case d of
        None \<Rightarrow> None
      | Some tv \<Rightarrow> TimeClip (UTC env (Day (LocalTime env tv) * msPerDay + h * 3600000)))"

definition iso_year :: "int \<Rightarrow> string" where
  "iso_year y =
     (if 0 \<le> y \<and> y \<le> 9999 then dec_pad 4 (nat y)
      else (if y < 0 then ''-'' else ''+'') @ dec_pad 6 (nat \<bar>y\<bar>))"

text \<open>The ISO 8601 text of a time value: \<open>YYYY-MM-DDTHH:mm:ss.sssZ\<close>.\<close>

definition iso_string :: "int \<Rightarrow> string" where
  "iso_string t =
     (case civil_from_days (Day t) of
        (y, m, d) \<Rightarrow>
          (let w = nat (TimeWithinDay t)
           in iso_year y @ ''-'' @ dec_pad 2 (nat m) @ ''-'' @ dec_pad 2 (nat d) @ ''T''
              @ dec_pad 2 (w div 3600000) @ '':'' @ dec_pad 2 (w div 60000 mod 60) @ '':''
              @ dec_pad 2 (w div 1000 mod 60) @ ''.'' @ dec_pad 3 (w mod 1000) @ ''Z''))"

text \<open>\<open>d.toISOString()\<close> throws a \<open>RangeError\<close> for the invalid date.\<close>

definition toISOString :: "env \<Rightarrow> Date \<Rightarrow> error + string" where
  "toISOString env d =
     (case d of
        None \<Rightarrow> Inl (RangeError (invalidTimeMessage env))
      | Some t \<Rightarrow> Inr (iso_string t))"

text \<open>\<open>new Date().toISOString()\<close>: the date just read from the clock is valid.\<close>

definition timestamp_now :: "env \<Rightarrow> world \<Rightarrow> string \<times> world" where
  "timestamp_now env w = (iso_string (Date_now env (dcount w)), w\<lparr>dcount := dcount w + 1\<rparr>)"

section \<open>Mock directory vendors (getThumbtackMockVendors)\<close>

definition categoryLabel :: "category \<Rightarrow> string" where
  "categoryLabel c =
     (if c = hvac then ''HVAC''
      else if c = plumber then ''Plumbing''
      else if c = electrician then ''Electrical''
      else if c = roofer then ''Roofing''
      else if c = appliance then ''Appliance''
      else if c = pest then ''Pest Control''
      else ''General'')"

text \<open>\<open>Math.round((0.3 + Math.random() * 12) * 10) / 10\<close>, with the \<open>k\<close>-th random number.\<close>

definition mock_distance :: "env \<Rightarrow> nat \<Rightarrow> real" where
  "mock_distance env k = of_int \<lfloor>(0.3 + Math_random env k * 12) * 10 + 1 / 2\<rfloor> / 10"

text \<open>
  The three object literals are evaluated in order, so they take three consecutive random
  numbers. The fields of \<open>base\<close> are spread into each of them.
\<close>

definition getThumbtackMockVendors ::
  "env \<Rightarrow> category \<Rightarrow> string \<Rightarrow> world \<Rightarrow> VendorData list \<times> world" where
  "getThumbtackMockVendors env cat zipCode w =
     (let label = categoryLabel cat;
          cityNote = ''Serves '' @ zipCode;
          mk = (\<lambda>ident nm rt rc dist fee.
                 \<lparr> vendor_id = ident, vendor_name = nm, rating = rt, reviewCount = rc,
                   vendor_phone = ''N/A'', website = None, address = cityNote, distance = dist,
                   vendor_category = label, hasWebChat = False, hasWhatsApp = True,
                   hasSms = Some True, eta = None, serviceFee = Some fee,
                   outreachStatus = pending, outreachLog = [], source = Some thumbtack \<rparr>)
      in ([mk (''thumbtack-pro-1-'' @ zipCode) (label @ '' Pros of '' @ zipCode) 4.9 164
              (mock_distance env (rcount w)) 95,
           mk (''thumbtack-pro-2-'' @ zipCode) (''Advance '' @ label @ '' Services'') 4.7 133
              (mock_distance env (rcount w + 1)) 89,
           mk (''thumbtack-pro-3-'' @ zipCode) (label @ '' Wizards'') 4.8 92
              (mock_distance env (rcount w + 2)) 0],
          w\<lparr>rcount := rcount w + 3\<rparr>))"

section \<open>The outreach simulator (simulateOutreach)\<close>

definition DEFAULT_CONFIG :: SimulationConfig where
  "DEFAULT_CONFIG = \<lparr> fastDemo = True, randomSeed = None, outreachSuccessRate = 0.8,
                       bookingSuccessRate = 0.85, maxAttempts = 3, delayRange = (500, 2000) \<rparr>"

text \<open>\<open>{ ...DEFAULT_CONFIG, ...config }\<close>: a field of \<open>config\<close> that is present wins.\<close>

definition finalConfig :: "PartialConfig \<Rightarrow> SimulationConfig" where
  "finalConfig config =
     \<lparr> fastDemo = (case fastDemo_opt config of Some b \<Rightarrow> b | None \<Rightarrow> fastDemo DEFAULT_CONFIG),
       randomSeed = (case randomSeed_opt config of Some x \<Rightarrow> Some x
                     | None \<Rightarrow> randomSeed DEFAULT_CONFIG),
       outreachSuccessRate = (case outreachSuccessRate_opt config of Some x \<Rightarrow> x
                              | None \<Rightarrow> outreachSuccessRate DEFAULT_CONFIG),
       bookingSuccessRate = (case bookingSuccessRate_opt config of Some x \<Rightarrow> x
                             | None \<Rightarrow> bookingSuccessRate DEFAULT_CONFIG),
       maxAttempts = (case maxAttempts_opt config of Some n \<Rightarrow> n
                      | None \<Rightarrow> maxAttempts DEFAULT_CONFIG),
       delayRange = (case delayRange_opt config of Some x \<Rightarrow> x
                     | None \<Rightarrow> delayRange DEFAULT_CONFIG) \<rparr>"

text \<open>The call \<open>simulateOutreach(vendor, problemSummary, onUpdate)\<close> passes no field.\<close>

definition no_config :: PartialConfig where
  "no_config = \<lparr> fastDemo_opt = None, randomSeed_opt = None, outreachSuccessRate_opt = None,
                  bookingSuccessRate_opt = None, maxAttempts_opt = None, delayRange_opt = None \<rparr>"

definition CHANNELS :: "channel list" where
  "CHANNELS = [sms, whatsapp, phone, email]"

definition OUTREACH_MESSAGES :: "(channel \<times> string) list" where
  "OUTREACH_MESSAGES =
    [(sms, ''Hi! We have a customer needing {category} service. Can you provide your earliest availability and service fee?''),
     (whatsapp, ''Hello! Gaspar here - we have a homeowner with a {category} issue. What'' @ [CHR 0x27] @ ''s your earliest availability?''),
     (phone, ''Calling to check availability for a {category} service call...''),
     (email, ''Service inquiry: Customer needs {category} assistance. Please respond with availability and pricing.'')]"

definition ETA_PATTERNS :: "(string \<times> nat) list" where
  "ETA_PATTERNS =
    [(''Today 2-4 PM'', 120),
     (''Tomorrow 9-11 AM'', 95),
     (''Tomorrow 2-4 PM'', 100),
     (''Thursday 10 AM-12 PM'', 85),
     (''Friday 1-3 PM'', 95),
     (''This afternoon 3-5 PM'', 110)]"

text \<open>\<open>xs[i]\<close> for a number \<open>i\<close> that \<open>Math.floor\<close> returned: \<open>None\<close> is \<open>undefined\<close>.\<close>

definition js_index :: "'a list \<Rightarrow> int \<Rightarrow> 'a option" where
  "js_index xs i = (if 0 \<le> i \<and> i < int (length xs) then Some (xs ! nat i) else None)"

text \<open>
  The assignments to \<open>attemptLog\<close>, the object just pushed, change the last entry of the
  log.
\<close>

definition update_last :: "('a \<Rightarrow> 'a) \<Rightarrow> 'a list \<Rightarrow> 'a list" where
  "update_last f xs = (case rev xs of [] \<Rightarrow> [] | x # r \<Rightarrow> rev r @ [f x])"

text \<open>
  The loop of \<open>simulateOutreach\<close>, from the round \<open>attempt\<close> on. \<open>cur\<close> is \<open>currentVendor\<close>.
  The result is the list of the vendor values that \<open>onUpdate\<close> receives (the vendor as it is
  at the moment of each call), and the returned vendor or the error thrown.
\<close>

function outreach_loop ::
  "env \<Rightarrow> SimulationConfig \<Rightarrow> ProblemSummary \<Rightarrow> nat \<Rightarrow> VendorData \<Rightarrow> world
     \<Rightarrow> VendorData list \<times> (error + VendorData)" where
  "outreach_loop env cfg ps attempt cur w =
     (if attempt < maxAttempts cfg then
        (let ch = CHANNELS ! (attempt mod length CHANNELS)
         in case map_of OUTREACH_MESSAGES ch of
              None \<Rightarrow> ([], Inl (TypeError []))
            | Some template \<Rightarrow>
                (let msg = replace template ''{category}'' (category_str (category ps));
                     (ts, w1) = timestamp_now env w;
                     attemptLog = \<lparr> channel = ch, timestamp = ts, status = sent,
                                    message = Some msg, response = None \<rparr>;
                     v1 = cur\<lparr>outreachLog := outreachLog cur @ [attemptLog]\<rparr>;
                     v2 = v1\<lparr>outreachLog := update_last (\<lambda>a. a\<lparr>status := delivered\<rparr>) (outreachLog v1)\<rparr>;
                     ok = (Math_random env (rcount w1) < outreachSuccessRate cfg);
                     w2 = w1\<lparr>rcount := rcount w1 + 1\<rparr>
                 in if ok then
                      (case js_index ETA_PATTERNS \<lfloor>Math_random env (rcount w2) * real (length ETA_PATTERNS)\<rfloor> of
                         None \<Rightarrow> ([v1, v2], Inl (TypeError []))
                       | Some (pattern_eta, pattern_fee) \<Rightarrow>
                           (let v3 = v2\<lparr>outreachLog :=
                                         update_last (\<lambda>a. a\<lparr>status := replied,
                                                             response := Some (''Available: '' @ pattern_eta @ '' - $''
                                                                               @ show_nat pattern_fee @ '' service fee'')\<rparr>)
                                           (outreachLog v2),
                                       eta := Some pattern_eta,
                                       serviceFee := Some pattern_fee,
                                       outreachStatus := completed\<rparr>
                            in ([v1, v2, v3], Inr v3)))
                    else
                      (let v3 = v2\<lparr>outreachLog := update_last (\<lambda>a. a\<lparr>status := attempt_failed\<rparr>) (outreachLog v2)\<rparr>;
                           (tr, res) = outreach_loop env cfg ps (attempt + 1) v3 w2
                       in (v1 # v2 # v3 # tr, res))))
      else
        (let vf = cur\<lparr>outreachStatus := outreach_failed\<rparr> in ([vf], Inr vf)))"
  by pat_completeness auto
termination
  by (relation "measure (\<lambda>(env, cfg, ps, attempt, cur, w). maxAttempts cfg - attempt)") auto

declare outreach_loop.simps [simp del]

text \<open>
  \<open>simulateOutreach\<close>: the first call of \<open>onUpdate\<close> shows the copy of the vendor with the
  status \<open>in-progress\<close>; then the loop runs.
\<close>

definition simulateOutreach ::
  "env \<Rightarrow> VendorData \<Rightarrow> ProblemSummary \<Rightarrow> PartialConfig \<Rightarrow> world
     \<Rightarrow> VendorData list \<times> (error + VendorData)" where
  "simulateOutreach env vendor ps config w =
     (let cfg = finalConfig config;
          currentVendor = vendor\<lparr>outreachStatus := in_progress\<rparr>;
          (tr, res) = outreach_loop env cfg ps 0 currentVendor w
      in (currentVendor # tr, res))"

section \<open>The booking simulator (simulateBooking)\<close>

definition PHONE_SCRIPTS :: "string list" where
  "PHONE_SCRIPTS =
    [''Calling {vendor}... Connected! Confirming availability for {problem}.'',
     ''Speaking with receptionist... Checking schedule for {eta}.'',
     ''Confirming appointment details... Getting confirmation number.'',
     ''Appointment confirmed! Booking reference: {confirmationNumber}'']"

definition WEB_CHAT_MESSAGES :: "string list" where
  "WEB_CHAT_MESSAGES =
    [''Initiating chat on {vendor} website...'',
     ''Chat agent connected. Explaining: {problem}'',
     ''Agent checking availability for {eta}...'',
     ''Securing appointment slot... Processing booking.'',
     ''Booking confirmed through web chat!'']"

definition WHATSAPP_MESSAGES :: "string list" where
  "WHATSAPP_MESSAGES =
    [''Sending WhatsApp message to {vendor}...'',
     ''Message delivered. Explaining service need: {problem}'',
     ''Vendor responding... Confirming {eta} availability.'',
     ''Appointment details confirmed via WhatsApp.'']"

definition SMS_MESSAGES :: "string list" where
  "SMS_MESSAGES =
    [''Sending SMS to {vendor}...'',
     ''Message sent. Explaining: {problem}'',
     ''Awaiting confirmation for {eta} via SMS...'',
     ''Appointment confirmed via SMS.'']"

text \<open>
  The state of a booking run: the counters of the world, the array \<open>log\<close>, and the calls
  of the two callbacks in their order. The callbacks are the caller's (the user interface
  passes state setters); the model records their arguments and takes it that they return.
\<close>

datatype callback = AttemptUpdate string | LogUpdate BookingLogEntry

record bstate = world +
  entries :: "BookingLogEntry list"
  calls :: "callback list"

definition onAttemptUpdate :: "string \<Rightarrow> bstate \<Rightarrow> bstate" where
  "onAttemptUpdate attempt st = st\<lparr>calls := calls st @ [AttemptUpdate attempt]\<rparr>"

text \<open>\<open>Math.random()\<close>: the next random number.\<close>

definition next_random :: "env \<Rightarrow> bstate \<Rightarrow> real \<times> bstate" where
  "next_random env st = (Math_random env (rcount st), st\<lparr>rcount := rcount st + 1\<rparr>)"

definition generateConfirmationNumber :: "env \<Rightarrow> bstate \<Rightarrow> string \<times> bstate" where
  "generateConfirmationNumber env st =
     (case next_random env st of
        (r, st') \<Rightarrow> (''GSP-'' @ toUpperCase (take 6 (drop 2 (toString36 env r))), st'))"

definition addLogEntry ::
  "env \<Rightarrow> string \<Rightarrow> string \<Rightarrow> string \<Rightarrow> bool \<Rightarrow> bstate \<Rightarrow> bstate" where
  "addLogEntry env ch act msg ok st =
     (let entry = \<lparr> entry_timestamp = iso_string (Date_now env (dcount st)), entry_channel = ch,
                    action = act, entry_message = msg, success = ok \<rparr>
      in st\<lparr>dcount := dcount st + 1, entries := entries st @ [entry],
            calls := calls st @ [LogUpdate entry]\<rparr>)"

definition scripts_of :: "channel \<Rightarrow> string list" where
  "scripts_of ch =
     (if ch = phone then PHONE_SCRIPTS
      else if ch = web_chat then WEB_CHAT_MESSAGES
      else if ch = whatsapp then WHATSAPP_MESSAGES
      else SMS_MESSAGES)"

definition channelName :: "channel \<Rightarrow> string" where
  "channelName ch =
     (if ch = phone then ''Phone Call''
      else if ch = web_chat then ''Website Chat''
      else if ch = whatsapp then ''WhatsApp''
      else ''SMS'')"

text \<open>A flag is truthy: \<open>hasSms\<close> may be absent.\<close>

definition truthy :: "bool option \<Rightarrow> bool" where
  "truthy b = (b = Some True)"

text \<open>The three assignments to \<open>successRate\<close>, in the order of the source.\<close>

definition successRate :: "channel \<Rightarrow> VendorData \<Rightarrow> real" where
  "successRate ch vendor =
     (let r0 = 0.85;
          r1 = (if ch = web_chat \<and> \<not> hasWebChat vendor then 0.1 else r0);
          r2 = (if ch = whatsapp \<and> \<not> hasWhatsApp vendor then 0.1 else r1);
          r3 = (if ch = sms \<and> \<not> truthy (hasSms vendor) then 0.1 else r2)
      in r3)"

definition failureReason :: "channel \<Rightarrow> string" where
  "failureReason ch =
     (if ch = phone then ''Line busy, no answer after 3 attempts''
      else if ch = web_chat then ''Chat unavailable, no agents online''
      else if ch = whatsapp then ''No response to WhatsApp messages''
      else ''No response to SMS'')"

text \<open>\<open>vendor.eta || 'requested time'\<close>: an absent or empty \<open>eta\<close> is falsy.\<close>

definition eta_or_requested :: "VendorData \<Rightarrow> string" where
  "eta_or_requested vendor =
     (case eta vendor of
        None \<Rightarrow> ''requested time''
      | Some e \<Rightarrow> if e = [] then ''requested time'' else e)"

text \<open>What \<open>simulateChannel\<close> returns.\<close>

record ChannelResult =
  result_success :: bool
  scheduledTime :: "string option"
  result_notes :: string
  result_confirmationNumber :: "string option"

definition fill_script :: "string \<Rightarrow> VendorData \<Rightarrow> ProblemSummary \<Rightarrow> string \<Rightarrow> string" where
  "fill_script template vendor ps conf =
     replace (replace (replace (replace template ''{vendor}'' (vendor_name vendor))
                         ''{problem}'' (summary ps))
                ''{eta}'' (eta_or_requested vendor))
       ''{confirmationNumber}'' conf"

text \<open>
  The loop over the scripts of a channel, from the step \<open>i\<close> on. Only the last step rolls;
  every step takes one more random number for its delay. The result is \<open>Some\<close> of the
  failure that the loop returns, or \<open>None\<close> when the loop runs to its end.
\<close>

function channel_loop ::
  "env \<Rightarrow> channel \<Rightarrow> VendorData \<Rightarrow> ProblemSummary \<Rightarrow> string \<Rightarrow> nat \<Rightarrow> bstate
     \<Rightarrow> ChannelResult option \<times> bstate" where
  "channel_loop env ch vendor ps conf i st =
     (if i < length (scripts_of ch) then
        (let script = fill_script (scripts_of ch ! i) vendor ps conf;
             st1 = onAttemptUpdate (channelName ch @ '': '' @ script) st;
             isLastStep = (i = length (scripts_of ch) - 1);
             roll = (if isLastStep then next_random env st1 else (0, st1));
             stepSuccess = (if isLastStep then fst roll < successRate ch vendor else True);
             st2 = addLogEntry env (channel_str ch) (''step_'' @ show_nat (i + 1)) script
                     stepSuccess (snd roll);
             st3 = snd (next_random env st2)
         in if \<not> stepSuccess \<and> isLastStep then
              (Some \<lparr> result_success = False, scheduledTime = None,
                      result_notes = channelName ch @ '' booking failed: '' @ failureReason ch,
                      result_confirmationNumber = None \<rparr>, st3)
            else channel_loop env ch vendor ps conf (i + 1) st3)
      else (None, st))"
  by pat_completeness auto
termination
  by (relation "measure (\<lambda>(env, ch, vendor, ps, conf, i, st). length (scripts_of ch) - i)") auto

declare channel_loop.simps [simp del]

text \<open>
  \<open>generateAppointmentTime\<close>. With an \<open>eta\<close> the function reads the clock twice (\<open>now\<close> is
  not used), without one once. \<open>toISOString\<close> throws for an invalid date.
\<close>

definition generateAppointmentTime ::
  "env \<Rightarrow> string option \<Rightarrow> bstate \<Rightarrow> (error + string) \<times> bstate" where
  "generateAppointmentTime env eta_opt st =
     (let stamp = (\<lambda>s. s\<lparr>dcount := dcount s + 1\<rparr>);
          d0 = Some (Date_now env (dcount st));
          d1 = Some (Date_now env (dcount st + 1));
          plus = (\<lambda>d n. setDate env d (map_option (\<lambda>x. x + n) (getDate env d)))
      in case eta_opt of
           None \<Rightarrow> (toISOString env (setHours env (plus d0 1) 10), stamp st)
         | Some e \<Rightarrow>
             if e = [] then (toISOString env (setHours env (plus d0 1) 10), stamp st)
             else if js_includes (toLowerCase e) ''today'' then
               (toISOString env
                  (if js_includes e ''2-4'' \<or> js_includes e ''2:00-4:00'' then setHours env d1 14
                   else if js_includes e ''3-5'' \<or> js_includes e ''3:00-5:00'' then setHours env d1 15
                   else setHours env d1 13),
                stamp (stamp st))
             else if js_includes (toLowerCase e) ''tomorrow'' then
               (toISOString env
                  (if js_includes e ''9-11'' \<or> js_includes e ''9:00-11:00''
                   then setHours env (plus d1 1) 9
                   else if js_includes e ''2-4'' \<or> js_includes e ''2:00-4:00''
                   then setHours env (plus d1 1) 14
                   else setHours env (plus d1 1) 10),
                stamp (stamp st))
             else (toISOString env (setHours env (plus d1 2) 10), stamp (stamp st)))"

text \<open>
  \<open>simulateChannel\<close>: the result returned, or the error thrown; the state is the one at
  that moment, since the log is filled in place.
\<close>

definition simulateChannel ::
  "env \<Rightarrow> channel \<Rightarrow> VendorData \<Rightarrow> ProblemSummary \<Rightarrow> bstate
     \<Rightarrow> (error + ChannelResult) \<times> bstate" where
  "simulateChannel env ch vendor ps st =
     (case generateConfirmationNumber env st of
        (conf, st1) \<Rightarrow>
          (case channel_loop env ch vendor ps conf 0 st1 of
             (Some failure, st2) \<Rightarrow> (Inr failure, st2)
           | (None, st2) \<Rightarrow>
               (case generateAppointmentTime env (eta vendor) st2 of
                  (Inl e, st3) \<Rightarrow> (Inl e, st3)
                | (Inr scheduled, st3) \<Rightarrow>
                    (Inr \<lparr> result_success = True, scheduledTime = Some scheduled,
                           result_notes = ''Successfully booked via '' @ channelName ch
                             @ ''. Please be available 15 minutes before the scheduled time.'',
                           result_confirmationNumber = Some conf \<rparr>, st3))))"

text \<open>The channel list of \<open>simulateBooking\<close>.\<close>

definition booking_channels :: "VendorData \<Rightarrow> channel list" where
  "booking_channels vendor =
     [phone] @ (if hasWebChat vendor then [web_chat] else [])
             @ (if hasWhatsApp vendor then [whatsapp] else [])
             @ (if truthy (hasSms vendor) then [sms] else [])"

text \<open>
  The loop \<open>for (const channel of channels)\<close> with its \<open>try\<close> and \<open>catch\<close>. The result is
  \<open>Some\<close> of the booking that the loop returns, or \<open>None\<close> when every channel was tried.
\<close>

fun booking_loop ::
  "env \<Rightarrow> VendorData \<Rightarrow> ProblemSummary \<Rightarrow> channel list \<Rightarrow> bstate
     \<Rightarrow> BookingResult option \<times> bstate" where
  "booking_loop env vendor ps [] st = (None, st)"
| "booking_loop env vendor ps (ch # rest) st =
     (let st1 = onAttemptUpdate (''Attempting booking via '' @ channelName ch @ ''...'') st
      in case simulateChannel env ch vendor ps st1 of
           (Inr result, st2) \<Rightarrow>
             if result_success result then
               (Some \<lparr> booking_status = confirmed, booking_channel = ch,
                       scheduledStartISO = scheduledTime result,
                       booking_notes = result_notes result,
                       booking_log = entries st2,
                       confirmationNumber = result_confirmationNumber result \<rparr>, st2)
             else
               booking_loop env vendor ps rest
                 (onAttemptUpdate (channel_str ch @ '' failed, trying next channel...'') st2)
         | (Inl e, st2) \<Rightarrow>
             booking_loop env vendor ps rest
               (addLogEntry env (channel_str ch) ''error''
                  (''Booking attempt failed: '' @ error_str e) False st2))"

text \<open>
  \<open>simulateBooking\<close> starts with an empty log. No statement outside the \<open>try\<close> can throw,
  so the function always returns a \<open>BookingResult\<close>; the state shows the calls of the
  callbacks.
\<close>

definition simulateBooking ::
  "env \<Rightarrow> VendorData \<Rightarrow> ProblemSummary \<Rightarrow> world \<Rightarrow> BookingResult \<times> bstate" where
  "simulateBooking env vendor ps w =
     (let channels = booking_channels vendor;
          st0 = \<lparr> rcount = rcount w, dcount = dcount w, entries = [], calls = [] \<rparr>
      in case booking_loop env vendor ps channels st0 of
           (Some result, st) \<Rightarrow> (result, st)
         | (None, st) \<Rightarrow>
             (\<lparr> booking_status = booking_failed, booking_channel = channels ! 0,
                scheduledStartISO = None,
                booking_notes = ''Unable to complete automatic booking. Please call the vendor directly to schedule your appointment.'',
                booking_log = entries st,
                confirmationNumber = None \<rparr>, st))"

subsection \<open>Notions used to state the properties of a booking run\<close>

text \<open>What \<open>simulateChannel\<close> returns when the roll of the last step fails.\<close>

definition channel_failure :: "channel \<Rightarrow> ChannelResult" where
  "channel_failure ch = \<lparr> result_success = False, scheduledTime = None,
                           result_notes = channelName ch @ '' booking failed: '' @ failureReason ch,
                           result_confirmationNumber = None \<rparr>"

text \<open>The state after the log entry and the delay of the step \<open>i\<close>, whose outcome is \<open>ok\<close>.\<close>

definition after_step ::
  "env \<Rightarrow> channel \<Rightarrow> VendorData \<Rightarrow> ProblemSummary \<Rightarrow> string \<Rightarrow> nat \<Rightarrow> bool \<Rightarrow> bstate \<Rightarrow> bstate" where
  "after_step env ch vendor ps conf i ok st =
     snd (next_random env
       (addLogEntry env (channel_str ch) (''step_'' @ show_nat (i + 1))
          (fill_script (scripts_of ch ! i) vendor ps conf) ok st))"

text \<open>
  The positions, in the sequence of the random numbers, of the rolls of the last steps of
  the channels of a list, when \<open>k\<close> numbers were taken before the first of them starts. A
  channel attempt takes one number for the confirmation code, one for the delay of each
  step, and one for the roll of the last step, just before the delay of that step.
\<close>

fun final_roll_indices :: "channel list \<Rightarrow> nat \<Rightarrow> nat list" where
  "final_roll_indices [] k = []"
| "final_roll_indices (ch # rest) k =
     (k + length (scripts_of ch)) # final_roll_indices rest (k + length (scripts_of ch) + 2)"

text \<open>The entry that the \<open>catch\<close> block adds to the log for an error \<open>e\<close>.\<close>

definition error_entry :: "env \<Rightarrow> channel \<Rightarrow> error \<Rightarrow> bstate \<Rightarrow> BookingLogEntry" where
  "error_entry env ch e st =
     \<lparr> entry_timestamp = iso_string (Date_now env (dcount st)), entry_channel = channel_str ch,
       action = ''error'', entry_message = ''Booking attempt failed: '' @ error_str e,
       success = False \<rparr>"

text \<open>
  The announcements of channel attempts among the calls of the callbacks: \<open>simulateBooking\<close>
  calls \<open>onAttemptUpdate\<close> with this message when it starts the attempt of a channel.
\<close>

definition announcement :: "channel \<Rightarrow> string" where
  "announcement ch = ''Attempting booking via '' @ channelName ch @ ''...''"

fun announcements :: "callback list \<Rightarrow> string list" where
  "announcements [] = []"
| "announcements (AttemptUpdate m # cs) =
     (if startsWith m ''Attempting booking via '' then m # announcements cs else announcements cs)"
| "announcements (LogUpdate e # cs) = announcements cs"

subsection \<open>Notions used to state the properties of an outreach run\<close>


text \<open>The attempt that the round \<open>attempt\<close> pushes, as it is at that moment.\<close>

definition attempt_sent :: "env \<Rightarrow> ProblemSummary \<Rightarrow> nat \<Rightarrow> world \<Rightarrow> OutreachAttempt" where
  "attempt_sent env ps attempt w =
     \<lparr> channel = CHANNELS ! (attempt mod length CHANNELS),
       timestamp = fst (timestamp_now env w), status = sent,
       message = Some (replace (the (map_of OUTREACH_MESSAGES (CHANNELS ! (attempt mod length CHANNELS))))
                         ''{category}'' (category_str (category ps))),
       response = None \<rparr>"

definition with_attempt :: "VendorData \<Rightarrow> OutreachAttempt \<Rightarrow> VendorData" where
  "with_attempt cur a = cur\<lparr>outreachLog := outreachLog cur @ [a]\<rparr>"

definition reply_text :: "string \<Rightarrow> nat \<Rightarrow> string" where
  "reply_text e f = ''Available: '' @ e @ '' - $'' @ show_nat f @ '' service fee''"

text \<open>The world after a round that failed: one date and one random number were taken.\<close>

definition next_world :: "world \<Rightarrow> world" where
  "next_world w = w\<lparr>dcount := dcount w + 1, rcount := rcount w + 1\<rparr>"

section \<open>Sample inputs\<close>

text \<open>
  An environment with a given sequence of random numbers, a clock that stands at
  2023-11-14T22:13:20Z, and the time zone UTC-8.
\<close>

definition sample_env :: "(nat \<Rightarrow> real) \<Rightarrow> env" where
  "sample_env rnd = \<lparr> Math_random = rnd, Date_now = (\<lambda>k. 1700000000000),
                      localTZA = (\<lambda>t isUTC. - 28800000), toString36 = (\<lambda>x. ''0.4fzyo82mvyr''),
                      invalidTimeMessage = ''Invalid time value'' \<rparr>"

text \<open>
  An environment whose clock stands at the largest time value, +275760-09-13T00:00:00Z, in
  the time zone UTC: the day after it is not a valid date.
\<close>

definition last_day_env :: "(nat \<Rightarrow> real) \<Rightarrow> env" where
  "last_day_env rnd = \<lparr> Math_random = rnd, Date_now = (\<lambda>k. 8640000000000000),
                        localTZA = (\<lambda>t isUTC. 0), toString36 = (\<lambda>x. ''0.4fzyo82mvyr''),
                        invalidTimeMessage = ''Invalid time value'' \<rparr>"

definition sample_vendor :: VendorData where
  "sample_vendor = \<lparr> vendor_id = ''vendor-1'', vendor_name = ''Acme Heating'', rating = 4.5,
                     reviewCount = 120, vendor_phone = ''N/A'', website = None,
                     address = ''1 Main St'', distance = 2.5, vendor_category = ''HVAC'',
                     hasWebChat = True, hasWhatsApp = True, hasSms = Some True,
                     eta = Some ''Tomorrow 9-11 AM'', serviceFee = Some 95,
                     outreachStatus = pending, outreachLog = [], source = Some demo \<rparr>"

definition sample_problem :: ProblemSummary where
  "sample_problem = \<lparr> transcript = ''My AC is broken and leaking'',
                      summary = ''My AC is broken and leaking.'', category = hvac,
                      urgency = high, symptoms = [''leaking'', ''broken''],
                      modelSerial = None \<rparr>"

definition start :: world where
  "start = \<lparr> rcount = 0, dcount = 0 \<rparr>"

text \<open>
  Random numbers with which a roll at the position 23 succeeds and a roll at any other
  position fails: 0.9 is not below a success rate of 0.85.
\<close>

definition rolls_until_sms :: "nat \<Rightarrow> real" where
  "rolls_until_sms k = (if k = 23 then 0.5 else 0.9)"

text \<open>
  Random numbers with which the rolls at the positions 4, 11, 17 and 23 fail, and a roll at
  any other position would succeed.
\<close>

definition rolls_all_fail :: "nat \<Rightarrow> real" where
  "rolls_all_fail k = (if k \<in> {4, 11, 17, 23} then 0.9 else 0)"

text \<open>Random numbers with which only a roll at the position 4 succeeds.\<close>

definition rolls_phone_only :: "nat \<Rightarrow> real" where
  "rolls_phone_only k = (if k = 4 then 0 else 0.9)"

section \<open>The classifier (analyzeProblem)\<close>

text \<open>
  \<open>Object.entries\<close> lists the keys of an object literal in insertion order (none of them is
  an integer index), so each keyword table is an association list in the order of the
  source.
\<close>

definition CATEGORY_KEYWORDS :: "(category \<times> string list) list" where
  "CATEGORY_KEYWORDS =
    [(hvac, [''heating'', ''cooling'', ''air conditioning'', ''a/c'', ''ac '', '' ac'',
             ''ac broke'', ''furnace'', ''hvac'', ''thermostat'', ''vent'', ''duct'',
             ''ac unit'', ''heat pump'']),
     (plumber, [''plumbing'', ''pipe'', ''leak'', ''faucet'', ''toilet'', ''drain'', ''water'',
                ''sink'', ''shower'', ''bath'', ''sewer'']),
     (electrician, [''electrical'', ''electric'', ''outlet'', ''switch'', ''light'', ''power'',
                    ''wire'', ''breaker'', ''fuse'', ''voltage'']),
     (roofer, [''roof'', ''roofing'', ''shingle'', ''gutter'', ''leak'', ''attic'', ''chimney'',
               ''flashing'']),
     (appliance, [''appliance'', ''refrigerator'', ''washer'', ''dryer'', ''dishwasher'',
                  ''oven'', ''stove'', ''microwave'']),
     (pest, [''pest'', ''bug'', ''insect'', ''rodent'', ''mouse'', ''rat'', ''ant'', ''roach'',
             ''termite'', ''exterminator'']),
     (general, [''repair'', ''fix'', ''broken'', ''maintenance'', ''handyman'', ''contractor''])]"

definition URGENCY_KEYWORDS :: "(urgency \<times> string list) list" where
  "URGENCY_KEYWORDS =
    [(emergency, [''emergency'', ''urgent'', ''immediate'', ''asap'', ''flooding'', ''fire'',
                  ''gas leak'', ''no power'']),
     (high, [''today'', ''quickly'', ''soon'', ''major'', ''serious'', ''broken'',
             ''not working'']),
     (medium, [''this week'', ''few days'', ''moderate'', ''annoying'', ''intermittent'']),
     (low, [''when convenient'', ''eventually'', ''minor'', ''cosmetic'', ''preventive''])]"

definition symptomKeywords :: "string list" where
  "symptomKeywords = [''leaking'', ''dripping'', ''broken'', ''not working'', ''making noise'',
                      ''sparking'', ''clogged'', ''cracked'']"

text \<open>\<open>keywords.filter(keyword => lowerText.includes(keyword)).length\<close>\<close>

definition matches :: "string \<Rightarrow> string list \<Rightarrow> nat" where
  "matches lowerText keywords = length (filter (\<lambda>keyword. js_includes lowerText keyword) keywords)"

text \<open>
  The keyword-substring hits of a keyword list on a text, stated without the program: the
  number of the keywords of the list that occur in the text, that is, for which the text is
  some \<open>pre @ keyword @ post\<close>.
\<close>

definition substring_hits :: "string \<Rightarrow> string list \<Rightarrow> nat" where
  "substring_hits text keywords =
     length (filter (\<lambda>keyword. \<exists>pre post. text = pre @ keyword @ post) keywords)"

text \<open>
  The category loop, with its two variables \<open>category\<close> and \<open>maxMatches\<close> as the state.
\<close>

fun category_loop ::
  "string \<Rightarrow> (category \<times> string list) list \<Rightarrow> category \<times> nat \<Rightarrow> category \<times> nat" where
  "category_loop lowerText [] (cat, maxMatches) = (cat, maxMatches)"
| "category_loop lowerText ((c, keywords) # rest) (cat, maxMatches) =
     (if matches lowerText keywords > maxMatches
      then category_loop lowerText rest (c, matches lowerText keywords)
      else category_loop lowerText rest (cat, maxMatches))"

text \<open>The urgency loop: the first level with a keyword in the text, then \<open>break\<close>.\<close>

fun urgency_loop :: "string \<Rightarrow> (urgency \<times> string list) list \<Rightarrow> urgency \<Rightarrow> urgency" where
  "urgency_loop lowerText [] u = u"
| "urgency_loop lowerText ((level, keywords) # rest) u =
     (if list_ex (\<lambda>keyword. js_includes lowerText keyword) keywords then level
      else urgency_loop lowerText rest u)"

subsection \<open>The two regular expressions for model and serial numbers\<close>

text \<open>
  \<open>[A-Z0-9\-]\<close> under the flag \<open>i\<close>: letters of either case, digits and the hyphen.
\<close>

definition isIdChar :: "char \<Rightarrow> bool" where
  "isIdChar c = (in_range c 65 90 \<or> in_range c 97 122 \<or> in_range c 48 57 \<or> c = CHR ''-'')"

text \<open>
  \<open>word\s*[#:]?\s*([A-Z0-9\-]+)\<close> matched at the start of \<open>s\<close>, without regard to case;
  the result is the first group. The three character classes are disjoint, so the greedy
  match is the only one.
\<close>

definition match_here :: "string \<Rightarrow> string \<Rightarrow> string option" where
  "match_here word s =
     (if map upper_char (take (length word) s) = map upper_char word \<and> length word \<le> length s
      then
        let r1 = dropWhile isSpace (drop (length word) s);
            r2 = (case r1 of [] \<Rightarrow> [] | c # r \<Rightarrow> if c = CHR ''#'' \<or> c = CHR '':'' then r else r1);
            r3 = dropWhile isSpace r2;
            g = takeWhile isIdChar r3
        in if g = [] then None else Some g
      else None)"

text \<open>\<open>s.match(re)?.[1]\<close>: the leftmost position where the expression matches.\<close>

fun match_group :: "string \<Rightarrow> string \<Rightarrow> string option" where
  "match_group word [] = None"
| "match_group word (c # s) =
     (case match_here word (c # s) of
        Some g \<Rightarrow> Some g
      | None \<Rightarrow> match_group word s)"

subsection \<open>generateSummary\<close>

definition isTerminator :: "char \<Rightarrow> bool" where
  "isTerminator c = (c = CHR ''.'' \<or> c = CHR ''!'' \<or> c = CHR ''?'')"

text \<open>\<open>s.split(/[.!?]+/)\<close>: the pieces between the maximal runs of terminators.\<close>

function split_terminators :: "string \<Rightarrow> string \<Rightarrow> string list" where
  "split_terminators cur [] = [rev cur]"
| "split_terminators cur (c # s) =
     (if isTerminator c then rev cur # split_terminators [] (dropWhile isTerminator s)
      else split_terminators (c # cur) s)"
  by pat_completeness auto
termination
  by (relation "measure (\<lambda>(cur, s). length s)")
     (auto simp: less_Suc_eq_le length_dropWhile_le)

definition generateSummary :: "string \<Rightarrow> category \<Rightarrow> string list \<Rightarrow> string" where
  "generateSummary txt cat symps =
     (let sentences = filter (\<lambda>s. length (trim s) > 0) (split_terminators [] txt);
          firstSentence =
            (case sentences of
               [] \<Rightarrow> take 100 txt
             | s # _ \<Rightarrow> if trim s = [] then take 100 txt else trim s)
      in if length firstSentence > 150 then take 147 firstSentence @ ''...''
         else firstSentence @ (if endsWith firstSentence ''.'' then [] else ''.''))"

subsection \<open>analyzeProblem\<close>

text \<open>
  The function waits 1.5 seconds and then computes its result from the transcript alone.
  No statement in it can throw, so the model is a total function with no error result.
\<close>

definition analyzeProblem :: "string \<Rightarrow> ProblemSummary" where
  "analyzeProblem txt =
     (let lowerText = toLowerCase txt;
          cat = fst (category_loop lowerText CATEGORY_KEYWORDS (general, 0));
          urg = urgency_loop lowerText URGENCY_KEYWORDS medium;
          symps = filter (\<lambda>symptom. js_includes lowerText symptom) symptomKeywords;
          modelMatch = match_group ''model'' txt;
          serialMatch = match_group ''serial'' txt;
          modelSerial' = (case modelMatch of Some g \<Rightarrow> Some g | None \<Rightarrow> serialMatch)
      in \<lparr> transcript = txt, summary = generateSummary txt cat symps, category = cat,
           urgency = urg, symptoms = symps, modelSerial = modelSerial' \<rparr>)"


section \<open>Properties of the classifier\<close>

text \<open>
  The category loop keeps its state when no entry beats the current maximum, and otherwise
  ends on the first entry that reaches the largest count.
\<close>

lemma category_loop_all_le:
  "\<forall>p \<in> set xs. matches t (snd p) \<le> m \<Longrightarrow> category_loop t xs (c, m) = (c, m)"
  by (induction xs arbitrary: c m) (auto simp: not_less)

lemma category_loop_first_max:
  "\<not> (\<forall>p \<in> set xs. matches t (snd p) \<le> m) \<Longrightarrow>
   \<exists>i < length xs.
     category_loop t xs (c, m) = (fst (xs ! i), matches t (snd (xs ! i))) \<and>
     m < matches t (snd (xs ! i)) \<and>
     (\<forall>j < length xs. matches t (snd (xs ! j)) \<le> matches t (snd (xs ! i))) \<and>
     (\<forall>j < i. matches t (snd (xs ! j)) < matches t (snd (xs ! i)))"
proof (induction xs arbitrary: c m)
  case Nil
  then show ?case by simp
next
  case (Cons x xs)
  obtain k ks where x: "x = (k, ks)" by (cases x)
  let ?n = "matches t ks"
  show ?case
  proof (cases "m < ?n")
    case True
    note big = True
    show ?thesis
    proof (cases "\<forall>p \<in> set xs. matches t (snd p) \<le> ?n")
      case True
      then have "category_loop t xs (k, ?n) = (k, ?n)"
        by (rule category_loop_all_le)
      with big True x show ?thesis
        by (intro exI[of _ 0]) (auto simp: less_Suc_eq_0_disj)
    next
      case False
      from Cons.IH[OF False, of k] obtain i where i: "i < length xs"
        "category_loop t xs (k, ?n) = (fst (xs ! i), matches t (snd (xs ! i)))"
        "?n < matches t (snd (xs ! i))"
        "\<forall>j < length xs. matches t (snd (xs ! j)) \<le> matches t (snd (xs ! i))"
        "\<forall>j < i. matches t (snd (xs ! j)) < matches t (snd (xs ! i))"
        by blast
      with big x show ?thesis
        by (intro exI[of _ "Suc i"]) (auto simp: less_Suc_eq_0_disj)
    qed
  next
    case False
    with Cons.prems x have ex: "\<not> (\<forall>p \<in> set xs. matches t (snd p) \<le> m)"
      by auto
    from Cons.IH[OF ex, of c] obtain i where i: "i < length xs"
      "category_loop t xs (c, m) = (fst (xs ! i), matches t (snd (xs ! i)))"
      "m < matches t (snd (xs ! i))"
      "\<forall>j < length xs. matches t (snd (xs ! j)) \<le> matches t (snd (xs ! i))"
      "\<forall>j < i. matches t (snd (xs ! j)) < matches t (snd (xs ! i))"
      by blast
    with False x show ?thesis
      by (intro exI[of _ "Suc i"]) (auto simp: less_Suc_eq_0_disj)
  qed
qed

text \<open>
  \<open>includes\<close> is the substring relation, so the count of the program is the number of
  keyword-substring hits.
\<close>

lemma startsWith_iff: "startsWith s k \<longleftrightarrow> (\<exists>post. s = k @ post)"
proof
  assume "startsWith s k"
  then have "s = k @ drop (length k) s"
    unfolding startsWith_def by (metis append_take_drop_id)
  then show "\<exists>post. s = k @ post" ..
next
  assume "\<exists>post. s = k @ post"
  then show "startsWith s k" unfolding startsWith_def by auto
qed

lemma js_includes_iff: "js_includes s k \<longleftrightarrow> (\<exists>pre post. s = pre @ k @ post)"
proof (induction s)
  case Nil
  show ?case by auto
next
  case (Cons c s)
  show ?case
  proof
    assume "js_includes (c # s) k"
    then consider "startsWith (c # s) k" | "js_includes s k" by auto
    then show "\<exists>pre post. c # s = pre @ k @ post"
    proof cases
      case 1
      then obtain post where "c # s = k @ post" unfolding startsWith_iff by blast
      then have "c # s = [] @ k @ post" by simp
      then show ?thesis by blast
    next
      case 2
      with Cons.IH obtain pre post where "s = pre @ k @ post" by blast
      then have "c # s = (c # pre) @ k @ post" by simp
      then show ?thesis by blast
    qed
  next
    assume "\<exists>pre post. c # s = pre @ k @ post"
    then obtain pre post where e: "c # s = pre @ k @ post" by blast
    show "js_includes (c # s) k"
    proof (cases pre)
      case Nil
      with e have "startsWith (c # s) k" unfolding startsWith_iff by auto
      then show ?thesis by simp
    next
      case (Cons d pre')
      with e have "s = pre' @ k @ post" by simp
      with Cons.IH have "js_includes s k" by blast
      then show ?thesis by simp
    qed
  qed
qed

lemma matches_substring_hits: "matches t kws = substring_hits t kws"
  unfolding matches_def substring_hits_def js_includes_iff ..

lemma first_maximum_unique:
  fixes hs :: "nat list"
  assumes "i < length hs" "\<forall>j < length hs. hs ! j \<le> hs ! i" "\<forall>j < i. hs ! j < hs ! i"
    and "k < length hs" "\<forall>j < length hs. hs ! j \<le> hs ! k" "\<forall>j < k. hs ! j < hs ! k"
  shows "i = k"
proof (rule ccontr)
  assume "i \<noteq> k"
  then consider "i < k" | "k < i" by linarith
  then show False
  proof cases
    case 1
    with assms(6) have "hs ! i < hs ! k" by simp
    moreover from assms(2,4) have "hs ! k \<le> hs ! i" by simp
    ultimately show False by simp
  next
    case 2
    with assms(3) have "hs ! k < hs ! i" by simp
    moreover from assms(5,1) have "hs ! i \<le> hs ! k" by simp
    ultimately show False by simp
  qed
qed

text \<open>
  C6. The category of \<open>analyzeProblem\<close> comes from the keyword-substring hits of the table
  entries on the lower-cased transcript, the hits of an entry being the number of its
  keywords that occur in the text as a substring: the category is \<open>general\<close> when no keyword
  of any entry occurs, and otherwise that of the first table entry whose number of hits is
  the maximum (every entry has at most that many, every earlier entry has strictly fewer).
  The table lists the seven categories in the order of the source, and the result is one of
  them. The function is total: it has no error result.
\<close>

theorem analyzeProblem_category:
  "(if \<forall>p \<in> set CATEGORY_KEYWORDS. substring_hits (toLowerCase txt) (snd p) = 0
    then category (analyzeProblem txt) = general
    else \<exists>i < length CATEGORY_KEYWORDS.
           category (analyzeProblem txt) = fst (CATEGORY_KEYWORDS ! i) \<and>
           (\<forall>j < length CATEGORY_KEYWORDS.
              substring_hits (toLowerCase txt) (snd (CATEGORY_KEYWORDS ! j))
                \<le> substring_hits (toLowerCase txt) (snd (CATEGORY_KEYWORDS ! i))) \<and>
           (\<forall>j < i.
              substring_hits (toLowerCase txt) (snd (CATEGORY_KEYWORDS ! j))
                < substring_hits (toLowerCase txt) (snd (CATEGORY_KEYWORDS ! i))))
   \<and> map fst CATEGORY_KEYWORDS = [hvac, plumber, electrician, roofer, appliance, pest, general]
   \<and> category (analyzeProblem txt) \<in> set (map fst CATEGORY_KEYWORDS)"
proof -
  let ?t = "toLowerCase txt"
  have cat: "category (analyzeProblem txt) = fst (category_loop ?t CATEGORY_KEYWORDS (general, 0))"
    by (simp add: analyzeProblem_def Let_def)
  have keys: "map fst CATEGORY_KEYWORDS = [hvac, plumber, electrician, roofer, appliance, pest, general]"
    by (simp add: CATEGORY_KEYWORDS_def)
  have general_key: "general \<in> set (map fst CATEGORY_KEYWORDS)"
    unfolding keys by simp
  show ?thesis
  proof (cases "\<forall>p \<in> set CATEGORY_KEYWORDS. substring_hits ?t (snd p) = 0")
    case True
    then have "\<forall>p \<in> set CATEGORY_KEYWORDS. matches ?t (snd p) \<le> 0"
      by (simp add: matches_substring_hits)
    then have "category_loop ?t CATEGORY_KEYWORDS (general, 0) = (general, 0)"
      by (rule category_loop_all_le)
    with True cat keys general_key show ?thesis by simp
  next
    case False
    then have "\<not> (\<forall>p \<in> set CATEGORY_KEYWORDS. matches ?t (snd p) \<le> 0)"
      by (simp add: matches_substring_hits)
    from category_loop_first_max[OF this, of general]
    obtain i where i: "i < length CATEGORY_KEYWORDS"
      "category_loop ?t CATEGORY_KEYWORDS (general, 0)
         = (fst (CATEGORY_KEYWORDS ! i), matches ?t (snd (CATEGORY_KEYWORDS ! i)))"
      "\<forall>j < length CATEGORY_KEYWORDS.
         matches ?t (snd (CATEGORY_KEYWORDS ! j)) \<le> matches ?t (snd (CATEGORY_KEYWORDS ! i))"
      "\<forall>j < i. matches ?t (snd (CATEGORY_KEYWORDS ! j)) < matches ?t (snd (CATEGORY_KEYWORDS ! i))"
      by blast
    have mem: "fst (CATEGORY_KEYWORDS ! i) \<in> set (map fst CATEGORY_KEYWORDS)"
      using i(1) by (metis length_map nth_map nth_mem)
    from i have "\<exists>i < length CATEGORY_KEYWORDS.
           category (analyzeProblem txt) = fst (CATEGORY_KEYWORDS ! i) \<and>
           (\<forall>j < length CATEGORY_KEYWORDS.
              substring_hits ?t (snd (CATEGORY_KEYWORDS ! j)) \<le> substring_hits ?t (snd (CATEGORY_KEYWORDS ! i))) \<and>
           (\<forall>j < i. substring_hits ?t (snd (CATEGORY_KEYWORDS ! j)) < substring_hits ?t (snd (CATEGORY_KEYWORDS ! i)))"
      unfolding cat matches_substring_hits by (intro exI[of _ i]) simp
    moreover have "category (analyzeProblem txt) \<in> set (map fst CATEGORY_KEYWORDS)"
      unfolding cat using i(2) mem by simp
    ultimately show ?thesis using keys by (simp only: if_not_P[OF False] simp_thms)
  qed
qed

lemma hits_roof:
  "map (\<lambda>p. matches (toLowerCase ''The roof shingle is leaking water'') (snd p)) CATEGORY_KEYWORDS
     = [0, 2, 0, 3, 0, 0, 0]"
  by code_simp

lemma hits_tie:
  "map (\<lambda>p. matches (toLowerCase ''Water LEAK on the Roof'') (snd p)) CATEGORY_KEYWORDS
     = [0, 2, 0, 2, 0, 0, 0]"
  by code_simp

lemma hits_hello:
  "map (\<lambda>p. matches (toLowerCase ''Hello'') (snd p)) CATEGORY_KEYWORDS
     = [0, 0, 0, 0, 0, 0, 0]"
  by code_simp

lemma category_from_hits:
  assumes hs: "map (\<lambda>p. substring_hits (toLowerCase txt) (snd p)) CATEGORY_KEYWORDS = hs"
    and k0: "k < length hs" "\<forall>x \<in> set hs. x \<le> hs ! k" "\<forall>x \<in> set (take k hs). x < hs ! k"
    and r: "\<exists>i < length CATEGORY_KEYWORDS.
           category (analyzeProblem txt) = fst (CATEGORY_KEYWORDS ! i) \<and>
           (\<forall>j < length CATEGORY_KEYWORDS.
              substring_hits (toLowerCase txt) (snd (CATEGORY_KEYWORDS ! j))
                \<le> substring_hits (toLowerCase txt) (snd (CATEGORY_KEYWORDS ! i))) \<and>
           (\<forall>j < i.
              substring_hits (toLowerCase txt) (snd (CATEGORY_KEYWORDS ! j))
                < substring_hits (toLowerCase txt) (snd (CATEGORY_KEYWORDS ! i)))"
  shows "category (analyzeProblem txt) = fst (CATEGORY_KEYWORDS ! k)"
proof -
  let ?T = CATEGORY_KEYWORDS
  have len: "length hs = length ?T" using hs by auto
  have k: "k < length hs" "\<forall>j < length hs. hs ! j \<le> hs ! k" "\<forall>j < k. hs ! j < hs ! k"
  proof -
    show "k < length hs" by (rule k0(1))
    show "\<forall>j < length hs. hs ! j \<le> hs ! k" using k0(2) by simp
    show "\<forall>j < k. hs ! j < hs ! k"
    proof (intro allI impI)
      fix j assume "j < k"
      with k0(1) have "take k hs ! j = hs ! j" "j < length (take k hs)" by simp_all
      then have "hs ! j \<in> set (take k hs)" by (metis nth_mem)
      with k0(3) show "hs ! j < hs ! k" by blast
    qed
  qed
  have nth: "substring_hits (toLowerCase txt) (snd (?T ! j)) = hs ! j" if "j < length ?T" for j
    using that hs by (metis nth_map)
  from r obtain i where i: "i < length ?T" "category (analyzeProblem txt) = fst (?T ! i)"
    "\<forall>j < length ?T. substring_hits (toLowerCase txt) (snd (?T ! j))
                \<le> substring_hits (toLowerCase txt) (snd (?T ! i))"
    "\<forall>j < i. substring_hits (toLowerCase txt) (snd (?T ! j))
                < substring_hits (toLowerCase txt) (snd (?T ! i))"
    by blast
  have a: "\<forall>j < length hs. hs ! j \<le> hs ! i" using i(1,3) nth len by simp
  have b: "\<forall>j < i. hs ! j < hs ! i" using i(1,4) nth len by simp
  have "i = k"
    using i(1) a b k unfolding len[symmetric]
    by (intro first_maximum_unique[of i hs k]) (simp_all add: len)
  with i(2) show ?thesis by simp
qed

lemma some_hit:
  assumes hs: "map (\<lambda>p. substring_hits t (snd p)) CATEGORY_KEYWORDS = hs"
    and k: "k < length hs" "0 < hs ! k"
  shows "\<not> (\<forall>p \<in> set CATEGORY_KEYWORDS. substring_hits t (snd p) = 0)"
proof
  assume z: "\<forall>p \<in> set CATEGORY_KEYWORDS. substring_hits t (snd p) = 0"
  have len: "length hs = length CATEGORY_KEYWORDS" using hs by auto
  with k(1) have "CATEGORY_KEYWORDS ! k \<in> set CATEGORY_KEYWORDS" by simp
  with z have "substring_hits t (snd (CATEGORY_KEYWORDS ! k)) = 0" by blast
  moreover have "substring_hits t (snd (CATEGORY_KEYWORDS ! k)) = hs ! k"
    using hs k(1) len by (metis nth_map)
  ultimately show False using k(2) by simp
qed

theorem analyzeProblem_category_witness:
  "map (\<lambda>p. substring_hits (toLowerCase ''The roof shingle is leaking water'') (snd p))
       CATEGORY_KEYWORDS = [0, 2, 0, 3, 0, 0, 0] \<and>
   category (analyzeProblem ''The roof shingle is leaking water'') = roofer \<and>
   map (\<lambda>p. substring_hits (toLowerCase ''Water LEAK on the Roof'') (snd p))
       CATEGORY_KEYWORDS = [0, 2, 0, 2, 0, 0, 0] \<and>
   category (analyzeProblem ''Water LEAK on the Roof'') = plumber \<and>
   map (\<lambda>p. substring_hits (toLowerCase ''Hello'') (snd p))
       CATEGORY_KEYWORDS = [0, 0, 0, 0, 0, 0, 0] \<and>
   category (analyzeProblem ''Hello'') = general"
proof -
  let ?T = CATEGORY_KEYWORDS
  have len: "length ?T = 7" by (simp add: CATEGORY_KEYWORDS_def)
  have key3: "fst (?T ! 3) = roofer" and key1: "fst (?T ! 1) = plumber"
    by (simp_all add: CATEGORY_KEYWORDS_def)
  have h1: "map (\<lambda>p. substring_hits (toLowerCase ''The roof shingle is leaking water'') (snd p)) ?T
              = [0, 2, 0, 3, 0, 0, 0]"
    using hits_roof unfolding matches_substring_hits .
  have h2: "map (\<lambda>p. substring_hits (toLowerCase ''Water LEAK on the Roof'') (snd p)) ?T
              = [0, 2, 0, 2, 0, 0, 0]"
    using hits_tie unfolding matches_substring_hits .
  have h3: "map (\<lambda>p. substring_hits (toLowerCase ''Hello'') (snd p)) ?T
              = [0, 0, 0, 0, 0, 0, 0]"
    using hits_hello unfolding matches_substring_hits .
  have n1: "\<not> (\<forall>p \<in> set ?T. substring_hits (toLowerCase ''The roof shingle is leaking water'') (snd p) = 0)"
    by (rule some_hit[OF h1, of 3]) simp_all
  have n2: "\<not> (\<forall>p \<in> set ?T. substring_hits (toLowerCase ''Water LEAK on the Roof'') (snd p) = 0)"
    by (rule some_hit[OF h2, of 1]) simp_all
  have a: "category (analyzeProblem ''The roof shingle is leaking water'') = fst (?T ! 3)"
    using analyzeProblem_category[of "''The roof shingle is leaking water''"]
    unfolding if_not_P[OF n1]
    by (intro category_from_hits[OF h1]) simp_all
  have b: "category (analyzeProblem ''Water LEAK on the Roof'') = fst (?T ! 1)"
    using analyzeProblem_category[of "''Water LEAK on the Roof''"]
    unfolding if_not_P[OF n2]
    by (intro category_from_hits[OF h2]) simp_all
  have "\<forall>x \<in> set (map (\<lambda>p. substring_hits (toLowerCase ''Hello'') (snd p)) ?T). x = 0"
    unfolding h3 by simp
  then have "\<forall>p \<in> set ?T. substring_hits (toLowerCase ''Hello'') (snd p) = 0" by simp
  with analyzeProblem_category[of "''Hello''"]
  have c: "category (analyzeProblem ''Hello'') = general" by simp
  from a b c h1 h2 h3 key1 key3 show ?thesis by simp
qed

text \<open>The scenario transcript of the specification, evaluated piece by piece.\<close>

lemma scenario_lowerText:
  "toLowerCase ''My AC is broken and leaking'' = ''my ac is broken and leaking''"
  by code_simp

lemma scenario_category:
  "category_loop ''my ac is broken and leaking'' CATEGORY_KEYWORDS (general, 0) = (hvac, 2)"
  by code_simp

lemma scenario_urgency:
  "urgency_loop ''my ac is broken and leaking'' URGENCY_KEYWORDS medium = high"
  by code_simp

lemma scenario_broken_is_high:
  "js_includes ''my ac is broken and leaking'' ''broken'' \<and>
   ''broken'' \<in> set (the (map_of URGENCY_KEYWORDS high))"
  by code_simp

text \<open>
  C7, as stated, fails: for the transcript "My AC is broken and leaking" the urgency is
  not \<open>medium\<close>.
\<close>

theorem analyzeProblem_scenario_not_medium:
  "\<not> (category (analyzeProblem ''My AC is broken and leaking'') = hvac \<and>
      urgency (analyzeProblem ''My AC is broken and leaking'') = medium)"
  by (simp add: analyzeProblem_def Let_def scenario_lowerText scenario_urgency)

text \<open>
  C7, amended. For the transcript "My AC is broken and leaking" the category is \<open>hvac\<close>
  and the urgency is \<open>high\<close>: no emergency keyword occurs in it, and the keyword
  "broken" of the level \<open>high\<close> does.
\<close>

theorem analyzeProblem_scenario:
  "category (analyzeProblem ''My AC is broken and leaking'') = hvac \<and>
   urgency (analyzeProblem ''My AC is broken and leaking'') = high"
  by (simp add: analyzeProblem_def Let_def scenario_lowerText scenario_urgency scenario_category)

text \<open>
  C10. The \<open>transcript\<close> field of the result is the input string, unchanged; only the
  keyword matching works on the lower-cased copy.
\<close>

theorem analyzeProblem_transcript:
  "transcript (analyzeProblem txt) = txt"
  by (simp add: analyzeProblem_def Let_def)


section \<open>Properties of the booking simulator\<close>

subsection \<open>The steps of a channel\<close>

lemma onAttemptUpdate_fields [simp]:
  "rcount (onAttemptUpdate m st) = rcount st"
  "dcount (onAttemptUpdate m st) = dcount st"
  "entries (onAttemptUpdate m st) = entries st"
  by (simp_all add: onAttemptUpdate_def)

lemma addLogEntry_fields [simp]:
  "rcount (addLogEntry env c a m ok st) = rcount st"
  "dcount (addLogEntry env c a m ok st) = dcount st + 1"
  "entries (addLogEntry env c a m ok st)
     = entries st @ [\<lparr> entry_timestamp = iso_string (Date_now env (dcount st)), entry_channel = c,
                        action = a, entry_message = m, success = ok \<rparr>]"
  by (simp_all add: addLogEntry_def Let_def)

lemma next_random_fields [simp]:
  "fst (next_random env st) = Math_random env (rcount st)"
  "rcount (snd (next_random env st)) = rcount st + 1"
  "dcount (snd (next_random env st)) = dcount st"
  "entries (snd (next_random env st)) = entries st"
  by (simp_all add: next_random_def)

lemma after_step_fields [simp]:
  "rcount (after_step env ch vendor ps conf i ok st) = rcount st + 1"
  "dcount (after_step env ch vendor ps conf i ok st) = dcount st + 1"
  "entries (after_step env ch vendor ps conf i ok st)
     = entries st @ [\<lparr> entry_timestamp = iso_string (Date_now env (dcount st)),
                        entry_channel = channel_str ch, action = ''step_'' @ show_nat (i + 1),
                        entry_message = fill_script (scripts_of ch ! i) vendor ps conf,
                        success = ok \<rparr>]"
  by (simp_all add: after_step_def)

lemma channel_loop_end:
  "length (scripts_of ch) \<le> i \<Longrightarrow> channel_loop env ch vendor ps conf i st = (None, st)"
  by (subst channel_loop.simps) simp

lemma channel_loop_step:
  assumes "Suc i < length (scripts_of ch)"
  shows "channel_loop env ch vendor ps conf i st =
   channel_loop env ch vendor ps conf (Suc i)
     (after_step env ch vendor ps conf i True
        (onAttemptUpdate (channelName ch @ '': '' @ fill_script (scripts_of ch ! i) vendor ps conf) st))"
proof -
  from assms have "i < length (scripts_of ch)" "i \<noteq> length (scripts_of ch) - 1" by arith+
  then show ?thesis
    by (subst channel_loop.simps) (simp add: Let_def after_step_def)
qed

lemma channel_loop_last:
  assumes "Suc i = length (scripts_of ch)"
  shows "channel_loop env ch vendor ps conf i st =
   (let st1 = onAttemptUpdate (channelName ch @ '': '' @ fill_script (scripts_of ch ! i) vendor ps conf) st;
        ok = (Math_random env (rcount st) < successRate ch vendor);
        st3 = after_step env ch vendor ps conf i ok (snd (next_random env st1))
    in (if ok then None else Some (channel_failure ch), st3))"
proof -
  from assms have a: "i < length (scripts_of ch)" "length (scripts_of ch) - Suc 0 = i" by arith+
  have e: "channel_loop env ch vendor ps conf (Suc i) s = (None, s)" for s
    using assms by (intro channel_loop_end) simp
  show ?thesis
    by (subst channel_loop.simps) (simp add: a e Let_def after_step_def channel_failure_def)
qed

lemma channel_loop_Some:
  "fst (channel_loop env ch vendor ps conf i st) = Some r \<Longrightarrow> r = channel_failure ch"
proof (induction "length (scripts_of ch) - i" arbitrary: i st)
  case 0
  then show ?case by (simp add: channel_loop_end)
next
  case (Suc k)
  then consider "Suc i = length (scripts_of ch)" | "Suc i < length (scripts_of ch)" by linarith
  then show ?case
  proof cases
    case 1
    with Suc.prems show ?thesis
      by (simp add: channel_loop_last Let_def split: if_splits)
  next
    case 2
    with Suc.hyps(2) have k: "k = length (scripts_of ch) - Suc i" by simp
    from Suc.prems Suc.hyps(1)[OF k] show ?thesis
      by (simp add: channel_loop_step[OF 2])
  qed
qed

lemma channel_loop_roll:
  "i < length (scripts_of ch) \<Longrightarrow>
   fst (channel_loop env ch vendor ps conf i st)
     = (if Math_random env (rcount st + (length (scripts_of ch) - 1 - i)) < successRate ch vendor
        then None else Some (channel_failure ch)) \<and>
   rcount (snd (channel_loop env ch vendor ps conf i st)) = rcount st + (length (scripts_of ch) - i) + 1"
proof (induction "length (scripts_of ch) - i" arbitrary: i st)
  case 0
  then show ?case by simp
next
  case (Suc k)
  then consider "Suc i = length (scripts_of ch)" | "Suc i < length (scripts_of ch)" by linarith
  then show ?case
  proof cases
    case 1
    have "length (scripts_of ch) - 1 - i = 0" "length (scripts_of ch) - i = 1"
      using 1 by simp_all
    then show ?thesis
      by (simp add: channel_loop_last[OF 1] Let_def)
  next
    case 2
    with Suc.hyps(2) have k: "k = length (scripts_of ch) - Suc i" by simp
    have idx: "Suc (rcount st + (length (scripts_of ch) - 1 - Suc i)) = rcount st + (length (scripts_of ch) - 1 - i)"
      "Suc (Suc (rcount st + (length (scripts_of ch) - Suc i))) = Suc (rcount st + (length (scripts_of ch) - i))"
      using 2 by simp_all
    from Suc.hyps(1)[OF k 2] idx show ?thesis
      by (simp add: channel_loop_step[OF 2])
  qed
qed

lemma channel_loop_entries:
  "\<exists>new. entries (snd (channel_loop env ch vendor ps conf i st)) = entries st @ new \<and>
         (\<forall>e \<in> set new. entry_channel e = channel_str ch)"
proof (induction "length (scripts_of ch) - i" arbitrary: i st)
  case 0
  then show ?case by (simp add: channel_loop_end)
next
  case (Suc k)
  then consider "Suc i = length (scripts_of ch)" | "Suc i < length (scripts_of ch)" by linarith
  then show ?case
  proof cases
    case 1
    then show ?thesis
      by (simp add: channel_loop_last Let_def)
  next
    case 2
    with Suc.hyps(2) have k: "k = length (scripts_of ch) - Suc i" by simp
    let ?st' = "after_step env ch vendor ps conf i True
        (onAttemptUpdate (channelName ch @ '': '' @ fill_script (scripts_of ch ! i) vendor ps conf) st)"
    from Suc.hyps(1)[OF k, of ?st'] obtain new where
      new: "entries (snd (channel_loop env ch vendor ps conf (Suc i) ?st')) = entries ?st' @ new"
           "\<forall>e \<in> set new. entry_channel e = channel_str ch" by blast
    then show ?thesis
      by (simp add: channel_loop_step[OF 2])
  qed
qed

lemma scripts_of_nonempty: "0 < length (scripts_of ch)"
  by (simp add: scripts_of_def PHONE_SCRIPTS_def WEB_CHAT_MESSAGES_def WHATSAPP_MESSAGES_def
        SMS_MESSAGES_def)

lemma iso_string_nonempty: "iso_string t \<noteq> []"
  by (simp add: iso_string_def Let_def split: prod.splits)

lemma toISOString_nonempty: "toISOString env d = Inr s \<Longrightarrow> s \<noteq> []"
  by (auto simp: toISOString_def iso_string_nonempty split: option.splits)

lemma generateAppointmentTime_is_toISOString:
  "\<exists>d. fst (generateAppointmentTime env e st) = toISOString env d"
  by (cases e) (auto simp: generateAppointmentTime_def Let_def)

lemma generateAppointmentTime_fields [simp]:
  "rcount (snd (generateAppointmentTime env e st)) = rcount st"
  "entries (snd (generateAppointmentTime env e st)) = entries st"
  by (cases e; simp add: generateAppointmentTime_def Let_def)+

lemma generateAppointmentTime_nonempty:
  "fst (generateAppointmentTime env e st) = Inr s \<Longrightarrow> s \<noteq> []"
  using generateAppointmentTime_is_toISOString[where env=env and e=e and st=st] toISOString_nonempty by metis

lemma generateConfirmationNumber_fields [simp]:
  "rcount (snd (generateConfirmationNumber env st)) = rcount st + 1"
  "entries (snd (generateConfirmationNumber env st)) = entries st"
  "fst (generateConfirmationNumber env st) \<noteq> []"
  by (simp_all add: generateConfirmationNumber_def next_random_def)

text \<open>
  One channel attempt takes as many random numbers as the channel has steps, and two more;
  the number at the offset of the last step decides it.
\<close>

lemma simulateChannel_rcount:
  "rcount (snd (simulateChannel env ch vendor ps st)) = rcount st + length (scripts_of ch) + 2"
proof -
  obtain conf st1 where c: "generateConfirmationNumber env st = (conf, st1)" by force
  then have r1: "rcount st1 = rcount st + 1"
    using generateConfirmationNumber_fields(1)[where env=env and st=st] by simp
  obtain res st2 where l: "channel_loop env ch vendor ps conf 0 st1 = (res, st2)" by force
  from channel_loop_roll[OF scripts_of_nonempty, where env=env and st=st1 and ch=ch and vendor=vendor and ps=ps and conf=conf] l r1
  have r2: "rcount st2 = rcount st + length (scripts_of ch) + 2" by simp
  obtain t st3 where g: "generateAppointmentTime env (eta vendor) st2 = (t, st3)" by force
  then have "rcount st3 = rcount st2"
    using generateAppointmentTime_fields(1)[where env=env and e="eta vendor" and st=st2] by simp
  with r2 show ?thesis
    by (simp add: simulateChannel_def c l g split: option.splits sum.splits)
qed

lemma simulateChannel_fail:
  assumes "\<not> Math_random env (rcount st + length (scripts_of ch)) < successRate ch vendor"
  shows "fst (simulateChannel env ch vendor ps st) = Inr (channel_failure ch)"
proof -
  obtain conf st1 where c: "generateConfirmationNumber env st = (conf, st1)" by force
  then have r1: "rcount st1 = rcount st + 1"
    using generateConfirmationNumber_fields(1)[where env=env and st=st] by simp
  obtain res st2 where l: "channel_loop env ch vendor ps conf 0 st1 = (res, st2)" by force
  have "rcount st1 + (length (scripts_of ch) - 1 - 0) = rcount st + length (scripts_of ch)"
    using r1 scripts_of_nonempty[of ch] by simp
  with channel_loop_roll[OF scripts_of_nonempty, where env=env and st=st1 and ch=ch and vendor=vendor and ps=ps and conf=conf] l assms
  have "res = Some (channel_failure ch)" by simp
  then show ?thesis by (simp add: simulateChannel_def c l)
qed

lemma simulateChannel_result:
  assumes "fst (simulateChannel env ch vendor ps st) = Inr r"
  shows "r = channel_failure ch \<or>
         (result_success r \<and>
          (\<exists>s c. scheduledTime r = Some s \<and> s \<noteq> [] \<and>
                 result_confirmationNumber r = Some c \<and> c \<noteq> []))"
proof -
  obtain conf st1 where c: "generateConfirmationNumber env st = (conf, st1)" by force
  then have ne: "conf \<noteq> []"
    using generateConfirmationNumber_fields(3)[where env=env and st=st] by simp
  obtain res st2 where l: "channel_loop env ch vendor ps conf 0 st1 = (res, st2)" by force
  show ?thesis
  proof (cases res)
    case None
    obtain t st3 where g: "generateAppointmentTime env (eta vendor) st2 = (t, st3)" by force
    with assms None obtain s where s: "t = Inr s"
      by (cases t) (simp_all add: simulateChannel_def c l)
    with g have "s \<noteq> []" using generateAppointmentTime_nonempty[where env=env and e="eta vendor" and st=st2 and s=s] by simp
    with assms None g s ne show ?thesis
      by (auto simp: simulateChannel_def c l)
  next
    case (Some f)
    with l have "f = channel_failure ch"
      using channel_loop_Some[where env=env and st=st1 and ch=ch and vendor=vendor and ps=ps and conf=conf and i=0 and r=f] by simp
    with assms Some show ?thesis by (simp add: simulateChannel_def c l)
  qed
qed

lemma simulateChannel_entries:
  "\<exists>new. entries (snd (simulateChannel env ch vendor ps st)) = entries st @ new \<and>
         (\<forall>e \<in> set new. entry_channel e = channel_str ch)"
proof -
  obtain conf st1 where c: "generateConfirmationNumber env st = (conf, st1)" by force
  then have e1: "entries st1 = entries st"
    using generateConfirmationNumber_fields(2)[where env=env and st=st] by simp
  obtain res st2 where l: "channel_loop env ch vendor ps conf 0 st1 = (res, st2)" by force
  from channel_loop_entries[where env=env and st=st1 and ch=ch and vendor=vendor and ps=ps and conf=conf and i=0] l e1 obtain new where
    new: "entries st2 = entries st @ new" "\<forall>e \<in> set new. entry_channel e = channel_str ch"
    by auto
  obtain t st3 where g: "generateAppointmentTime env (eta vendor) st2 = (t, st3)" by force
  then have "entries st3 = entries st2"
    using generateAppointmentTime_fields(2)[where env=env and e="eta vendor" and st=st2] by simp
  then have "entries (snd (simulateChannel env ch vendor ps st)) = entries st2"
    by (simp add: simulateChannel_def c l g split: option.splits sum.splits)
  with new show ?thesis by simp
qed

lemma channel_failure_fields [simp]: "\<not> result_success (channel_failure ch)"
  by (simp add: channel_failure_def)

text \<open>The three ways in which the loop goes on from a channel.\<close>

lemma booking_loop_failure:
  assumes "simulateChannel env ch vendor ps
             (onAttemptUpdate (''Attempting booking via '' @ channelName ch @ ''...'') st)
           = (Inr r, st2)" and "\<not> result_success r"
  shows "booking_loop env vendor ps (ch # rest) st =
         booking_loop env vendor ps rest
           (onAttemptUpdate (channel_str ch @ '' failed, trying next channel...'') st2)"
  using assms by (simp add: Let_def)

lemma booking_loop_catch:
  assumes "simulateChannel env ch vendor ps
             (onAttemptUpdate (''Attempting booking via '' @ channelName ch @ ''...'') st)
           = (Inl e, st2)"
  shows "booking_loop env vendor ps (ch # rest) st =
         booking_loop env vendor ps rest
           (st2\<lparr>dcount := dcount st2 + 1, entries := entries st2 @ [error_entry env ch e st2],
                calls := calls st2 @ [LogUpdate (error_entry env ch e st2)]\<rparr>)"
  using assms by (simp add: Let_def addLogEntry_def error_entry_def)

lemma booking_loop_return:
  assumes "simulateChannel env ch vendor ps
             (onAttemptUpdate (''Attempting booking via '' @ channelName ch @ ''...'') st)
           = (Inr r, st2)" and "result_success r"
  shows "booking_loop env vendor ps (ch # rest) st =
         (Some \<lparr> booking_status = confirmed, booking_channel = ch,
                 scheduledStartISO = scheduledTime r, booking_notes = result_notes r,
                 booking_log = entries st2,
                 confirmationNumber = result_confirmationNumber r \<rparr>, st2)"
  using assms by (simp add: Let_def)

lemma booking_loop_Some:
  "fst (booking_loop env vendor ps cs st) = Some r \<Longrightarrow>
   booking_status r = confirmed \<and> booking_channel r \<in> set cs \<and>
   booking_log r = entries (snd (booking_loop env vendor ps cs st)) \<and>
   (\<exists>s c. scheduledStartISO r = Some s \<and> s \<noteq> [] \<and> confirmationNumber r = Some c \<and> c \<noteq> [])"
proof (induction cs arbitrary: st)
  case Nil
  then show ?case by simp
next
  case (Cons ch rest)
  let ?st1 = "onAttemptUpdate (''Attempting booking via '' @ channelName ch @ ''...'') st"
  obtain res st2 where sc: "simulateChannel env ch vendor ps ?st1 = (res, st2)" by force
  show ?case
  proof (cases res)
    case (Inl e)
    with sc Cons.prems Cons.IH show ?thesis
      by (auto simp: booking_loop_catch)
  next
    case (Inr cr)
    show ?thesis
    proof (cases "result_success cr")
      case True
      from sc Inr have "fst (simulateChannel env ch vendor ps ?st1) = Inr cr" by simp
      from simulateChannel_result[OF this] True
      obtain s c where "scheduledTime cr = Some s" "s \<noteq> []"
        "result_confirmationNumber cr = Some c" "c \<noteq> []" by auto
      with sc Inr True Cons.prems show ?thesis
        by (auto simp: booking_loop_return)
    next
      case False
      with sc Inr Cons.prems Cons.IH show ?thesis
        by (auto simp: booking_loop_failure)
    qed
  qed
qed

lemma booking_loop_all_fail:
  "\<forall>(ch, j) \<in> set (zip cs (final_roll_indices cs (rcount st))).
      \<not> Math_random env j < successRate ch vendor \<Longrightarrow>
   fst (booking_loop env vendor ps cs st) = None"
proof (induction cs arbitrary: st)
  case Nil
  then show ?case by simp
next
  case (Cons ch rest)
  let ?st1 = "onAttemptUpdate (''Attempting booking via '' @ channelName ch @ ''...'') st"
  obtain res st2 where sc: "simulateChannel env ch vendor ps ?st1 = (res, st2)" by force
  from Cons.prems have roll: "\<not> Math_random env (rcount ?st1 + length (scripts_of ch)) < successRate ch vendor"
    by simp
  from simulateChannel_fail[OF roll, where ps=ps] sc have res: "res = Inr (channel_failure ch)" by simp
  from simulateChannel_rcount[where env=env and ch=ch and vendor=vendor and ps=ps and st="?st1"] sc
  have r2: "rcount st2 = rcount st + length (scripts_of ch) + 2" by simp
  let ?st3 = "onAttemptUpdate (channel_str ch @ '' failed, trying next channel...'') st2"
  have step: "booking_loop env vendor ps (ch # rest) st = booking_loop env vendor ps rest ?st3"
    using sc res by (intro booking_loop_failure[where r="channel_failure ch"]) simp_all
  have "\<forall>(ch, j) \<in> set (zip rest (final_roll_indices rest (rcount ?st3))).
          \<not> Math_random env j < successRate ch vendor"
    using Cons.prems r2 by simp
  from Cons.IH[OF this] show ?case by (simp only: step)
qed

lemma booking_loop_entries:
  "\<exists>new. entries (snd (booking_loop env vendor ps cs st)) = entries st @ new \<and>
         (\<forall>e \<in> set new. entry_channel e \<in> channel_str ` set cs)"
proof (induction cs arbitrary: st)
  case Nil
  then show ?case by simp
next
  case (Cons ch rest)
  let ?st1 = "onAttemptUpdate (''Attempting booking via '' @ channelName ch @ ''...'') st"
  obtain res st2 where sc: "simulateChannel env ch vendor ps ?st1 = (res, st2)" by force
  from simulateChannel_entries[where env=env and ch=ch and vendor=vendor and ps=ps and st="?st1"] sc
  obtain new where new: "entries st2 = entries st @ new"
    "\<forall>e \<in> set new. entry_channel e = channel_str ch" by auto
  show ?case
  proof (cases res)
    case (Inl e)
    let ?st3 = "st2\<lparr>dcount := dcount st2 + 1, entries := entries st2 @ [error_entry env ch e st2],
                calls := calls st2 @ [LogUpdate (error_entry env ch e st2)]\<rparr>"
    have step: "booking_loop env vendor ps (ch # rest) st = booking_loop env vendor ps rest ?st3"
      using sc Inl by (intro booking_loop_catch) simp
    have ch_e: "entry_channel (error_entry env ch e st2) = channel_str ch"
      by (simp add: error_entry_def)
    from Cons.IH[of ?st3] obtain new' where
      "entries (snd (booking_loop env vendor ps rest ?st3)) = entries ?st3 @ new'"
      "\<forall>e \<in> set new'. entry_channel e \<in> channel_str ` set rest" by blast
    with new ch_e show ?thesis
      unfolding step
      by (intro exI[of _ "new @ [error_entry env ch e st2] @ new'"]) auto
  next
    case (Inr cr)
    show ?thesis
    proof (cases "result_success cr")
      case True
      with sc Inr new show ?thesis
        by (intro exI[of _ new]) (auto simp: booking_loop_return)
    next
      case False
      let ?st3 = "onAttemptUpdate (channel_str ch @ '' failed, trying next channel...'') st2"
      from Cons.IH[of ?st3] obtain new' where
        "entries (snd (booking_loop env vendor ps rest ?st3)) = entries ?st3 @ new'"
        "\<forall>e \<in> set new'. entry_channel e \<in> channel_str ` set rest" by blast
      with new sc Inr False show ?thesis
        by (intro exI[of _ "new @ new'"]) (auto simp: booking_loop_failure)
    qed
  qed
qed

subsection \<open>Success of a channel\<close>

lemma simulateChannel_success:
  assumes "Math_random env (rcount st + length (scripts_of ch)) < successRate ch vendor"
  shows "\<exists>st2 conf.
           fst (simulateChannel env ch vendor ps st) =
             (case fst (generateAppointmentTime env (eta vendor) st2) of
                Inl e \<Rightarrow> Inl e
              | Inr s \<Rightarrow> Inr \<lparr> result_success = True, scheduledTime = Some s,
                             result_notes = ''Successfully booked via '' @ channelName ch
                               @ ''. Please be available 15 minutes before the scheduled time.'',
                             result_confirmationNumber = Some conf \<rparr>)"
proof -
  obtain conf st1 where c: "generateConfirmationNumber env st = (conf, st1)" by force
  then have r1: "rcount st1 = rcount st + 1"
    using generateConfirmationNumber_fields(1)[where env=env and st=st] by simp
  obtain res st2 where l: "channel_loop env ch vendor ps conf 0 st1 = (res, st2)" by force
  have "rcount st1 + (length (scripts_of ch) - 1 - 0) = rcount st + length (scripts_of ch)"
    using r1 scripts_of_nonempty[of ch] by simp
  with channel_loop_roll[OF scripts_of_nonempty, where env=env and st=st1 and ch=ch
         and vendor=vendor and ps=ps and conf=conf] l assms
  have res: "res = None" by simp
  obtain t st3 where g: "generateAppointmentTime env (eta vendor) st2 = (t, st3)" by force
  show ?thesis
    by (rule exI[of _ st2], rule exI[of _ conf])
       (simp add: simulateChannel_def c l res g split: sum.splits)
qed

lemma booking_loop_first_success:
  assumes "\<forall>(c, j) \<in> set (zip pre (final_roll_indices pre (rcount st))).
             \<not> Math_random env j < successRate c vendor"
    and "Math_random env (last (final_roll_indices (pre @ [ch]) (rcount st))) < successRate ch vendor"
    and "\<forall>st'. \<exists>s. fst (generateAppointmentTime env (eta vendor) st') = Inr s"
  shows "\<exists>r. fst (booking_loop env vendor ps (pre @ ch # rest) st) = Some r \<and>
             booking_channel r = ch"
  using assms(1,2)
proof (induction pre arbitrary: st)
  case Nil
  let ?st1 = "onAttemptUpdate (''Attempting booking via '' @ channelName ch @ ''...'') st"
  from Nil have roll: "Math_random env (rcount ?st1 + length (scripts_of ch)) < successRate ch vendor"
    by simp
  from simulateChannel_success[OF roll, where ps=ps] obtain st2 conf where
    sc: "fst (simulateChannel env ch vendor ps ?st1) =
           (case fst (generateAppointmentTime env (eta vendor) st2) of
                Inl e \<Rightarrow> Inl e
              | Inr s \<Rightarrow> Inr \<lparr> result_success = True, scheduledTime = Some s,
                             result_notes = ''Successfully booked via '' @ channelName ch
                               @ ''. Please be available 15 minutes before the scheduled time.'',
                             result_confirmationNumber = Some conf \<rparr>)" by blast
  from assms(3) obtain s where "fst (generateAppointmentTime env (eta vendor) st2) = Inr s" by blast
  with sc obtain r where r: "fst (simulateChannel env ch vendor ps ?st1) = Inr r" "result_success r"
    by simp
  then obtain st3 where "simulateChannel env ch vendor ps ?st1 = (Inr r, st3)"
    by (cases "simulateChannel env ch vendor ps ?st1") simp
  from booking_loop_return[OF this r(2)] show ?case by simp
next
  case (Cons c pre)
  let ?st1 = "onAttemptUpdate (''Attempting booking via '' @ channelName c @ ''...'') st"
  obtain res st2 where sc: "simulateChannel env c vendor ps ?st1 = (res, st2)" by force
  from Cons.prems(1) have roll: "\<not> Math_random env (rcount ?st1 + length (scripts_of c)) < successRate c vendor"
    by simp
  from simulateChannel_fail[OF roll, where ps=ps] sc have res: "res = Inr (channel_failure c)" by simp
  from simulateChannel_rcount[where env=env and ch=c and vendor=vendor and ps=ps and st="?st1"] sc
  have r2: "rcount st2 = rcount st + length (scripts_of c) + 2" by simp
  let ?st3 = "onAttemptUpdate (channel_str c @ '' failed, trying next channel...'') st2"
  have step: "booking_loop env vendor ps ((c # pre) @ ch # rest) st
                = booking_loop env vendor ps (pre @ ch # rest) ?st3"
    using sc res booking_loop_failure[where r="channel_failure c" and rest="pre @ ch # rest"]
    by simp
  have a: "\<forall>(c, j) \<in> set (zip pre (final_roll_indices pre (rcount ?st3))).
          \<not> Math_random env j < successRate c vendor"
    using Cons.prems(1) r2 by simp
  have "final_roll_indices (pre @ [ch]) (rcount st + length (scripts_of c) + 2) \<noteq> []"
    by (cases pre) simp_all
  then have b: "Math_random env (last (final_roll_indices (pre @ [ch]) (rcount ?st3))) < successRate ch vendor"
    using Cons.prems(2) r2 by simp
  from Cons.IH[OF a b] show ?case by (simp only: step)
qed

subsection \<open>The dates of the sample environments\<close>

lemma eta_tests:
  "\<not> js_includes (toLowerCase ''Tomorrow 9-11 AM'') ''today''"
  "js_includes (toLowerCase ''Tomorrow 9-11 AM'') ''tomorrow''"
  "js_includes ''Tomorrow 9-11 AM'' ''9-11''"
  by code_simp+

lemma sample_getDate: "getDate (sample_env rnd) (Some 1700000000000) = Some 14"
  unfolding getDate_def LocalTime_def sample_env_def Day_def msPerDay_def civil_from_days_def Let_def
  by simp

lemma sample_setDate:
  "setDate (sample_env rnd) (Some 1700000000000) (Some 15) = Some 1700086400000"
  unfolding setDate_def LocalTime_def UTC_def TimeClip_def sample_env_def Day_def TimeWithinDay_def
    msPerDay_def civil_from_days_def days_from_civil_def Let_def
  by simp

lemma sample_setHours:
  "setHours (sample_env rnd) (Some 1700086400000) 9 = Some 1700067600000"
  unfolding setHours_def LocalTime_def UTC_def TimeClip_def sample_env_def Day_def msPerDay_def
  by simp

lemma sample_appointment:
  "fst (generateAppointmentTime (sample_env rnd) (Some ''Tomorrow 9-11 AM'') st)
     = Inr (iso_string 1700067600000)"
proof -
  have now: "Date_now (sample_env rnd) k = 1700000000000" for k
    by (simp add: sample_env_def)
  show ?thesis
    unfolding generateAppointmentTime_def Let_def
    by (simp add: eta_tests now sample_getDate sample_setDate sample_setHours toISOString_def del: js_includes.simps)
qed

lemma last_day_getDate: "getDate (last_day_env rnd) (Some 8640000000000000) = Some 13"
  unfolding getDate_def LocalTime_def last_day_env_def Day_def msPerDay_def civil_from_days_def Let_def
  by simp

lemma last_day_setDate:
  "setDate (last_day_env rnd) (Some 8640000000000000) (Some 14) = None"
  unfolding setDate_def LocalTime_def UTC_def TimeClip_def last_day_env_def Day_def TimeWithinDay_def
    msPerDay_def civil_from_days_def days_from_civil_def Let_def
  by simp

lemma last_day_appointment:
  "fst (generateAppointmentTime (last_day_env rnd) (Some ''Tomorrow 9-11 AM'') st)
     = Inl (RangeError ''Invalid time value'')"
proof -
  have now: "Date_now (last_day_env rnd) k = 8640000000000000" for k
    by (simp add: last_day_env_def)
  have msg: "invalidTimeMessage (last_day_env rnd) = ''Invalid time value''"
    by (simp add: last_day_env_def)
  show ?thesis
    unfolding generateAppointmentTime_def Let_def
    by (simp add: eta_tests now msg last_day_getDate last_day_setDate setHours_def toISOString_def del: js_includes.simps)
qed

subsection \<open>The whole run\<close>

lemma booking_channels_phone_first: "\<exists>rest. booking_channels vendor = phone # rest"
  by (simp add: booking_channels_def)

lemma simulateBooking_cases:
  "(case fst (booking_loop env vendor ps (booking_channels vendor)
                \<lparr> rcount = rcount w, dcount = dcount w, entries = [], calls = [] \<rparr>) of
      Some r \<Rightarrow> fst (simulateBooking env vendor ps w) = r
    | None \<Rightarrow> fst (simulateBooking env vendor ps w) =
        \<lparr> booking_status = booking_failed, booking_channel = phone, scheduledStartISO = None,
          booking_notes = ''Unable to complete automatic booking. Please call the vendor directly to schedule your appointment.'',
          booking_log = entries (snd (simulateBooking env vendor ps w)),
          confirmationNumber = None \<rparr>) \<and>
   snd (simulateBooking env vendor ps w)
     = snd (booking_loop env vendor ps (booking_channels vendor)
              \<lparr> rcount = rcount w, dcount = dcount w, entries = [], calls = [] \<rparr>)"
proof -
  obtain rest where ch: "booking_channels vendor = phone # rest"
    using booking_channels_phone_first by blast
  obtain res st where l: "booking_loop env vendor ps (booking_channels vendor)
                \<lparr> rcount = rcount w, dcount = dcount w, entries = [], calls = [] \<rparr> = (res, st)"
    by force
  have "(phone # rest) ! 0 = phone" by simp
  with l ch show ?thesis
    by (cases res) (simp_all add: simulateBooking_def Let_def)
qed

lemma simulateBooking_log:
  "booking_log (fst (simulateBooking env vendor ps w)) = entries (snd (simulateBooking env vendor ps w))"
proof -
  let ?st0 = "\<lparr> rcount = rcount w, dcount = dcount w, entries = [], calls = [] \<rparr>"
  show ?thesis
  proof (cases "fst (booking_loop env vendor ps (booking_channels vendor) ?st0)")
    case None
    with simulateBooking_cases[of env vendor ps w] show ?thesis by simp
  next
    case (Some r)
    from booking_loop_Some[OF Some] simulateBooking_cases[of env vendor ps w] Some
    show ?thesis by simp
  qed
qed

lemma simulateBooking_entry_channels:
  "\<forall>e \<in> set (booking_log (fst (simulateBooking env vendor ps w))).
     entry_channel e \<in> channel_str ` set (booking_channels vendor)"
proof -
  let ?st0 = "\<lparr> rcount = rcount w, dcount = dcount w, entries = [], calls = [] \<rparr>"
  from booking_loop_entries[where env=env and vendor=vendor and ps=ps
         and cs="booking_channels vendor" and st="?st0"]
  have "\<forall>e \<in> set (entries (snd (booking_loop env vendor ps (booking_channels vendor) ?st0))).
          entry_channel e \<in> channel_str ` set (booking_channels vendor)"
    by auto
  with simulateBooking_cases[of env vendor ps w] show ?thesis
    by (simp add: simulateBooking_log)
qed

lemma simulateBooking_result_channel:
  "booking_channel (fst (simulateBooking env vendor ps w)) \<in> set (booking_channels vendor)"
proof -
  let ?st0 = "\<lparr> rcount = rcount w, dcount = dcount w, entries = [], calls = [] \<rparr>"
  obtain rest where ch: "booking_channels vendor = phone # rest"
    using booking_channels_phone_first by blast
  show ?thesis
  proof (cases "fst (booking_loop env vendor ps (booking_channels vendor) ?st0)")
    case None
    with simulateBooking_cases[of env vendor ps w] ch show ?thesis by simp
  next
    case (Some r)
    from booking_loop_Some[OF Some] simulateBooking_cases[of env vendor ps w] Some
    show ?thesis by simp
  qed
qed

subsection \<open>The channels that a run attempts\<close>

lemma announcements_append [simp]:
  "announcements (xs @ ys) = announcements xs @ announcements ys"
  by (induction xs rule: announcements.induct) simp_all

lemma announcement_starts: "startsWith (announcement ch) ''Attempting booking via ''"
  by (simp add: announcement_def startsWith_def)

lemma channelName_not_announcement:
  "\<not> startsWith (channelName ch @ x) ''Attempting booking via ''"
  by (cases ch) (simp_all add: channelName_def startsWith_def)

lemma channel_str_not_announcement:
  "\<not> startsWith (channel_str ch @ x) ''Attempting booking via ''"
  by (cases ch) (simp_all add: startsWith_def)

lemma calls_fields [simp]:
  "calls (onAttemptUpdate m st) = calls st @ [AttemptUpdate m]"
  "announcements (calls (addLogEntry env c a m ok st)) = announcements (calls st)"
  "calls (snd (next_random env st)) = calls st"
  "calls (snd (generateConfirmationNumber env st)) = calls st"
  "calls (snd (generateAppointmentTime env e st)) = calls st"
  by (simp_all add: onAttemptUpdate_def addLogEntry_def Let_def next_random_def
        generateConfirmationNumber_def generateAppointmentTime_def split: option.splits)

lemma after_step_calls [simp]:
  "announcements (calls (after_step env ch vendor ps conf i ok st)) = announcements (calls st)"
  by (simp add: after_step_def)

lemma channel_loop_announcements:
  "announcements (calls (snd (channel_loop env ch vendor ps conf i st))) = announcements (calls st)"
proof (induction "length (scripts_of ch) - i" arbitrary: i st)
  case 0
  then show ?case by (simp add: channel_loop_end)
next
  case (Suc k)
  then consider "Suc i = length (scripts_of ch)" | "Suc i < length (scripts_of ch)" by linarith
  then show ?case
  proof cases
    case 1
    then show ?thesis
      by (simp add: channel_loop_last Let_def channelName_not_announcement)
  next
    case 2
    with Suc.hyps(2) have k: "k = length (scripts_of ch) - Suc i" by simp
    show ?thesis
      by (simp add: channel_loop_step[OF 2] Suc.hyps(1)[OF k] channelName_not_announcement)
  qed
qed

lemma simulateChannel_announcements:
  "announcements (calls (snd (simulateChannel env ch vendor ps st))) = announcements (calls st)"
proof -
  obtain conf st1 where c: "generateConfirmationNumber env st = (conf, st1)" by force
  then have c1: "calls st1 = calls st"
    using calls_fields(4)[of env st] by simp
  obtain res st2 where l: "channel_loop env ch vendor ps conf 0 st1 = (res, st2)" by force
  from channel_loop_announcements[of env ch vendor ps conf 0 st1] l c1
  have c2: "announcements (calls st2) = announcements (calls st)" by simp
  obtain t st3 where g: "generateAppointmentTime env (eta vendor) st2 = (t, st3)" by force
  then have "calls st3 = calls st2"
    using calls_fields(5)[of env "eta vendor" st2] by simp
  with c2 show ?thesis
    by (simp add: simulateChannel_def c l g split: option.splits sum.splits)
qed

lemma booking_loop_announcements:
  "\<exists>k \<le> length cs. (cs \<noteq> [] \<longrightarrow> 0 < k) \<and>
     announcements (calls (snd (booking_loop env vendor ps cs st)))
       = announcements (calls st) @ map announcement (take k cs)"
proof (induction cs arbitrary: st)
  case Nil
  then show ?case by simp
next
  case (Cons ch rest)
  let ?st1 = "onAttemptUpdate (''Attempting booking via '' @ channelName ch @ ''...'') st"
  obtain res st2 where sc: "simulateChannel env ch vendor ps ?st1 = (res, st2)" by force
  have a1: "announcements (calls ?st1) = announcements (calls st) @ [announcement ch]"
    using announcement_starts[of ch] by (simp add: announcement_def)
  from simulateChannel_announcements[of env ch vendor ps ?st1] sc a1
  have a2: "announcements (calls st2) = announcements (calls st) @ [announcement ch]" by simp
  show ?case
  proof (cases res)
    case (Inl e)
    let ?st3 = "st2\<lparr>dcount := dcount st2 + 1, entries := entries st2 @ [error_entry env ch e st2],
                calls := calls st2 @ [LogUpdate (error_entry env ch e st2)]\<rparr>"
    have step: "booking_loop env vendor ps (ch # rest) st = booking_loop env vendor ps rest ?st3"
      using sc Inl by (intro booking_loop_catch) simp
    have a3: "announcements (calls ?st3) = announcements (calls st) @ [announcement ch]"
      using a2 by simp
    from Cons.IH[of ?st3] obtain k where k: "k \<le> length rest"
      "announcements (calls (snd (booking_loop env vendor ps rest ?st3)))
         = announcements (calls ?st3) @ map announcement (take k rest)" by blast
    show ?thesis
      unfolding step using k a3 by (intro exI[of _ "Suc k"]) simp
  next
    case (Inr cr)
    show ?thesis
    proof (cases "result_success cr")
      case True
      with sc Inr a2 show ?thesis
        by (intro exI[of _ 1]) (simp add: booking_loop_return)
    next
      case False
      let ?st3 = "onAttemptUpdate (channel_str ch @ '' failed, trying next channel...'') st2"
      have step: "booking_loop env vendor ps (ch # rest) st = booking_loop env vendor ps rest ?st3"
        using sc Inr False by (intro booking_loop_failure[where r=cr]) simp_all
      have a3: "announcements (calls ?st3) = announcements (calls st) @ [announcement ch]"
        using a2 channel_str_not_announcement[of ch] by simp
      from Cons.IH[of ?st3] obtain k where k: "k \<le> length rest"
        "announcements (calls (snd (booking_loop env vendor ps rest ?st3)))
           = announcements (calls ?st3) @ map announcement (take k rest)" by blast
      show ?thesis
        unfolding step using k a3 by (intro exI[of _ "Suc k"]) simp
    qed
  qed
qed

lemma simulateBooking_announcements:
  "\<exists>k. 0 < k \<and> k \<le> length (booking_channels vendor) \<and>
     announcements (calls (snd (simulateBooking env vendor ps w)))
       = map announcement (take k (booking_channels vendor))"
proof -
  let ?st0 = "\<lparr> rcount = rcount w, dcount = dcount w, entries = [], calls = [] \<rparr>"
  obtain rest where ch: "booking_channels vendor = phone # rest"
    using booking_channels_phone_first by blast
  from booking_loop_announcements[of "booking_channels vendor" env vendor ps ?st0]
  obtain k where "k \<le> length (booking_channels vendor)" "0 < k"
    "announcements (calls (snd (booking_loop env vendor ps (booking_channels vendor) ?st0)))
       = map announcement (take k (booking_channels vendor))"
    using ch by auto
  with simulateBooking_cases[of env vendor ps w] show ?thesis by auto
qed

lemma booking_loop_attempts:
  "case fst (booking_loop env vendor ps cs st) of
     None \<Rightarrow> announcements (calls (snd (booking_loop env vendor ps cs st)))
               = announcements (calls st) @ map announcement cs
   | Some r \<Rightarrow> booking_status r = confirmed \<and>
       (\<exists>j < length cs. booking_channel r = cs ! j \<and>
          announcements (calls (snd (booking_loop env vendor ps cs st)))
            = announcements (calls st) @ map announcement (take (Suc j) cs))"
proof (induction cs arbitrary: st)
  case Nil
  then show ?case by simp
next
  case (Cons ch rest)
  let ?st1 = "onAttemptUpdate (''Attempting booking via '' @ channelName ch @ ''...'') st"
  obtain res st2 where sc: "simulateChannel env ch vendor ps ?st1 = (res, st2)" by force
  have a1: "announcements (calls ?st1) = announcements (calls st) @ [announcement ch]"
    using announcement_starts[of ch] by (simp add: announcement_def)
  from simulateChannel_announcements[of env ch vendor ps ?st1] sc a1
  have a2: "announcements (calls st2) = announcements (calls st) @ [announcement ch]" by simp
  have next_channel: ?case
    if step: "booking_loop env vendor ps (ch # rest) st = booking_loop env vendor ps rest st3"
      and a3: "announcements (calls st3) = announcements (calls st) @ [announcement ch]" for st3
  proof (cases "fst (booking_loop env vendor ps rest st3)")
    case None
    with Cons.IH[of st3] a3 show ?thesis unfolding step by simp
  next
    case (Some r)
    with Cons.IH[of st3] obtain j where j: "booking_status r = confirmed" "j < length rest"
      "booking_channel r = rest ! j"
      "announcements (calls (snd (booking_loop env vendor ps rest st3)))
         = announcements (calls st3) @ map announcement (take (Suc j) rest)"
      by auto
    have "\<exists>i < length (ch # rest). booking_channel r = (ch # rest) ! i \<and>
            announcements (calls (snd (booking_loop env vendor ps rest st3)))
              = announcements (calls st) @ map announcement (take (Suc i) (ch # rest))"
      using j a3 by (intro exI[of _ "Suc j"]) simp
    with Some j(1) show ?thesis unfolding step by simp
  qed
  show ?case
  proof (cases res)
    case (Inl e)
    let ?st3 = "st2\<lparr>dcount := dcount st2 + 1, entries := entries st2 @ [error_entry env ch e st2],
                calls := calls st2 @ [LogUpdate (error_entry env ch e st2)]\<rparr>"
    have step: "booking_loop env vendor ps (ch # rest) st = booking_loop env vendor ps rest ?st3"
      using sc Inl by (intro booking_loop_catch) simp
    have a3: "announcements (calls ?st3) = announcements (calls st) @ [announcement ch]"
      using a2 by simp
    from next_channel[OF step a3] show ?thesis .
  next
    case (Inr cr)
    show ?thesis
    proof (cases "result_success cr")
      case True
      have ret: "booking_loop env vendor ps (ch # rest) st =
          (Some \<lparr> booking_status = confirmed, booking_channel = ch,
                   scheduledStartISO = scheduledTime cr, booking_notes = result_notes cr,
                   booking_log = entries st2,
                   confirmationNumber = result_confirmationNumber cr \<rparr>, st2)"
        using sc Inr True by (simp add: booking_loop_return)
      have "\<exists>j < length (ch # rest). ch = (ch # rest) ! j \<and>
              announcements (calls st2)
                = announcements (calls st) @ map announcement (take (Suc j) (ch # rest))"
        using a2 by (intro exI[of _ 0]) simp
      then show ?thesis unfolding ret by simp
    next
      case False
      let ?st3 = "onAttemptUpdate (channel_str ch @ '' failed, trying next channel...'') st2"
      have step: "booking_loop env vendor ps (ch # rest) st = booking_loop env vendor ps rest ?st3"
        using sc Inr False by (intro booking_loop_failure[where r=cr]) simp_all
      have a3: "announcements (calls ?st3) = announcements (calls st) @ [announcement ch]"
        using a2 channel_str_not_announcement[of ch] by simp
      from next_channel[OF step a3] show ?thesis .
    qed
  qed
qed

lemma booking_loop_after_failures:
  assumes "\<forall>(c, j) \<in> set (zip pre (final_roll_indices pre (rcount st))).
             \<not> Math_random env j < successRate c vendor"
  shows "\<exists>st'. booking_loop env vendor ps (pre @ rest) st = booking_loop env vendor ps rest st' \<and>
               announcements (calls st') = announcements (calls st) @ map announcement pre"
  using assms
proof (induction pre arbitrary: st)
  case Nil
  show ?case by (intro exI[of _ st]) simp
next
  case (Cons ch pre)
  let ?st1 = "onAttemptUpdate (''Attempting booking via '' @ channelName ch @ ''...'') st"
  obtain res st2 where sc: "simulateChannel env ch vendor ps ?st1 = (res, st2)" by force
  have a1: "announcements (calls ?st1) = announcements (calls st) @ [announcement ch]"
    using announcement_starts[of ch] by (simp add: announcement_def)
  from simulateChannel_announcements[of env ch vendor ps ?st1] sc a1
  have a2: "announcements (calls st2) = announcements (calls st) @ [announcement ch]" by simp
  from Cons.prems have roll: "\<not> Math_random env (rcount ?st1 + length (scripts_of ch)) < successRate ch vendor"
    by simp
  from simulateChannel_fail[OF roll, where ps=ps] sc have res: "res = Inr (channel_failure ch)" by simp
  from simulateChannel_rcount[where env=env and ch=ch and vendor=vendor and ps=ps and st="?st1"] sc
  have r2: "rcount st2 = rcount st + length (scripts_of ch) + 2" by simp
  let ?st3 = "onAttemptUpdate (channel_str ch @ '' failed, trying next channel...'') st2"
  have step: "booking_loop env vendor ps ((ch # pre) @ rest) st = booking_loop env vendor ps (pre @ rest) ?st3"
    using sc res booking_loop_failure[where r="channel_failure ch" and ch=ch and rest="pre @ rest"
        and env=env and vendor=vendor and ps=ps and st=st and ?st2.0=st2] by simp
  have a3: "announcements (calls ?st3) = announcements (calls st) @ [announcement ch]"
    using a2 channel_str_not_announcement[of ch] by simp
  have "\<forall>(c, j) \<in> set (zip pre (final_roll_indices pre (rcount ?st3))).
          \<not> Math_random env j < successRate c vendor"
    using Cons.prems r2 by simp
  from Cons.IH[OF this] obtain st' where
    "booking_loop env vendor ps (pre @ rest) ?st3 = booking_loop env vendor ps rest st'"
    "announcements (calls st') = announcements (calls ?st3) @ map announcement pre" by blast
  with step a3 show ?case by (intro exI[of _ st']) simp
qed

lemma zip_take_left: "zip xs (take (length xs) ys) = zip xs ys"
proof (induction xs arbitrary: ys)
  case Nil
  show ?case by simp
next
  case (Cons x xs)
  then show ?case by (cases ys) simp_all
qed

lemma final_roll_indices_append:
  "take (length pre) (final_roll_indices (pre @ rest) k) = final_roll_indices pre k"
  by (induction pre arbitrary: k) simp_all

lemma booking_loop_reaches:
  assumes j: "j < length cs"
    and fails: "\<forall>(c, i) \<in> set (zip (take j cs) (final_roll_indices cs (rcount st))).
             \<not> Math_random env i < successRate c vendor"
  shows "take (length (announcements (calls st)) + Suc j)
              (announcements (calls (snd (booking_loop env vendor ps cs st))))
           = announcements (calls st) @ map announcement (take (Suc j) cs)"
proof -
  let ?pre = "take j cs"
  obtain ch rest where d: "drop j cs = ch # rest"
    using j by (metis Cons_nth_drop_Suc)
  have cs: "cs = ?pre @ ch # rest" using d by (metis append_take_drop_id)
  have lp: "length ?pre = j" using j by simp
  have "zip ?pre (final_roll_indices cs (rcount st))
          = zip ?pre (take (length ?pre) (final_roll_indices (?pre @ ch # rest) (rcount st)))"
    using cs by (metis zip_take_left)
  also have "\<dots> = zip ?pre (final_roll_indices ?pre (rcount st))"
    by (simp only: final_roll_indices_append)
  finally have "\<forall>(c, i) \<in> set (zip ?pre (final_roll_indices ?pre (rcount st))).
             \<not> Math_random env i < successRate c vendor"
    using fails by simp
  from booking_loop_after_failures[OF this, of ps "ch # rest"] obtain st' where
    st': "booking_loop env vendor ps (?pre @ ch # rest) st = booking_loop env vendor ps (ch # rest) st'"
      "announcements (calls st') = announcements (calls st) @ map announcement ?pre" by blast
  from booking_loop_announcements[of "ch # rest" env vendor ps st'] obtain k where
    k: "0 < k" "announcements (calls (snd (booking_loop env vendor ps (ch # rest) st')))
         = announcements (calls st') @ map announcement (take k (ch # rest))" by auto
  from k(1) obtain k' where k': "k = Suc k'" by (cases k) auto
  have t: "take (Suc j) cs = ?pre @ [ch]"
    using j d by (metis Cons_nth_drop_Suc list.inject take_Suc_conv_app_nth)
  have "announcements (calls (snd (booking_loop env vendor ps cs st)))
          = (announcements (calls st) @ map announcement ?pre @ [announcement ch])
            @ map announcement (take k' rest)"
    using st' k k' cs by simp
  moreover have "length (announcements (calls st) @ map announcement ?pre @ [announcement ch])
          = length (announcements (calls st)) + Suc j" using lp by simp
  ultimately show ?thesis unfolding t by (simp del: length_take)
qed

lemma successRate_below: "successRate ch vendor < 0.9"
  by (simp add: successRate_def Let_def)

lemma simulateBooking_attempts:
  "(booking_status (fst (simulateBooking env vendor ps w)) = booking_failed \<longrightarrow>
      announcements (calls (snd (simulateBooking env vendor ps w)))
        = map announcement (booking_channels vendor)) \<and>
   (booking_status (fst (simulateBooking env vendor ps w)) \<noteq> booking_failed \<longrightarrow>
      (\<exists>j < length (booking_channels vendor).
         booking_channel (fst (simulateBooking env vendor ps w)) = booking_channels vendor ! j \<and>
         announcements (calls (snd (simulateBooking env vendor ps w)))
           = map announcement (take (Suc j) (booking_channels vendor))))"
proof -
  let ?st0 = "\<lparr> rcount = rcount w, dcount = dcount w, entries = [], calls = [] \<rparr>"
  note cases = simulateBooking_cases[of env vendor ps w]
  note att = booking_loop_attempts[of env vendor ps "booking_channels vendor" ?st0]
  show ?thesis
  proof (cases "fst (booking_loop env vendor ps (booking_channels vendor) ?st0)")
    case None
    with cases att show ?thesis by simp
  next
    case (Some r)
    with cases have r: "fst (simulateBooking env vendor ps w) = r" by simp
    from att Some have "booking_status r = confirmed"
      "\<exists>j < length (booking_channels vendor). booking_channel r = booking_channels vendor ! j \<and>
          announcements (calls (snd (booking_loop env vendor ps (booking_channels vendor) ?st0)))
            = map announcement (take (Suc j) (booking_channels vendor))"
      by simp_all
    with cases r show ?thesis by simp
  qed
qed

lemma simulateBooking_reaches:
  assumes "j < length (booking_channels vendor)"
    and "\<forall>(c, i) \<in> set (zip (take j (booking_channels vendor))
                            (final_roll_indices (booking_channels vendor) (rcount w))).
           \<not> Math_random env i < successRate c vendor"
  shows "take (Suc j) (announcements (calls (snd (simulateBooking env vendor ps w))))
           = map announcement (take (Suc j) (booking_channels vendor))"
proof -
  let ?st0 = "\<lparr> rcount = rcount w, dcount = dcount w, entries = [], calls = [] \<rparr>"
  from assms(2) have "\<forall>(c, i) \<in> set (zip (take j (booking_channels vendor))
                            (final_roll_indices (booking_channels vendor) (rcount ?st0))).
           \<not> Math_random env i < successRate c vendor" by simp
  from booking_loop_reaches[OF assms(1) this, of ps] simulateBooking_cases[of env vendor ps w]
  show ?thesis by simp
qed

text \<open>
  C2. The channel list of \<open>simulateBooking\<close> is the list \<open>phone\<close>, \<open>web_chat\<close>, \<open>whatsapp\<close>,
  \<open>sms\<close> in this order, with \<open>phone\<close> always in it and each of the other three in it
  exactly when the flag of the vendor (\<open>hasWebChat\<close>, \<open>hasWhatsApp\<close>, \<open>hasSms\<close>) is true. A run
  attempts the channels of this list and no other, in the order of the list, as its
  announcements to \<open>onAttemptUpdate\<close> show: a run with the result \<open>failed\<close> has attempted
  every channel of the list; a run with another result has attempted the channels up to the
  one of its result, and none after it; and the channel at the position \<open>j\<close> of the list is
  attempted whenever the last-step rolls of the channels before it fail. Every log entry of
  the run and the channel of its result belong to a channel of the list. When the three
  flags are false, the list is \<open>[phone]\<close>, of length 1, and the run attempts, logs and
  reports \<open>phone\<close> only.
\<close>

theorem simulateBooking_channel_list:
  "booking_channels vendor =
     filter (\<lambda>ch. ch = phone \<or> (ch = web_chat \<and> hasWebChat vendor)
                  \<or> (ch = whatsapp \<and> hasWhatsApp vendor)
                  \<or> (ch = sms \<and> hasSms vendor = Some True))
       [phone, web_chat, whatsapp, sms] \<and>
   hd (booking_channels vendor) = phone \<and>
   (\<forall>e \<in> set (booking_log (fst (simulateBooking env vendor ps w))).
      entry_channel e \<in> channel_str ` set (booking_channels vendor)) \<and>
   booking_channel (fst (simulateBooking env vendor ps w)) \<in> set (booking_channels vendor) \<and>
   (\<exists>k. 0 < k \<and> k \<le> length (booking_channels vendor) \<and>
        announcements (calls (snd (simulateBooking env vendor ps w)))
          = map announcement (take k (booking_channels vendor))) \<and>
   (booking_status (fst (simulateBooking env vendor ps w)) = booking_failed \<longrightarrow>
      announcements (calls (snd (simulateBooking env vendor ps w)))
        = map announcement (booking_channels vendor)) \<and>
   (booking_status (fst (simulateBooking env vendor ps w)) \<noteq> booking_failed \<longrightarrow>
      (\<exists>j < length (booking_channels vendor).
         booking_channel (fst (simulateBooking env vendor ps w)) = booking_channels vendor ! j \<and>
         announcements (calls (snd (simulateBooking env vendor ps w)))
           = map announcement (take (Suc j) (booking_channels vendor)))) \<and>
   (\<forall>j < length (booking_channels vendor).
      (\<forall>(c, i) \<in> set (zip (take j (booking_channels vendor))
                            (final_roll_indices (booking_channels vendor) (rcount w))).
         \<not> Math_random env i < successRate c vendor) \<longrightarrow>
      take (Suc j) (announcements (calls (snd (simulateBooking env vendor ps w))))
        = map announcement (take (Suc j) (booking_channels vendor))) \<and>
   (\<not> hasWebChat vendor \<and> \<not> hasWhatsApp vendor \<and> hasSms vendor \<noteq> Some True \<longrightarrow>
      booking_channels vendor = [phone] \<and> length (booking_channels vendor) = 1 \<and>
      announcements (calls (snd (simulateBooking env vendor ps w))) = [announcement phone] \<and>
      (\<forall>e \<in> set (booking_log (fst (simulateBooking env vendor ps w))).
         entry_channel e = ''phone'') \<and>
      booking_channel (fst (simulateBooking env vendor ps w)) = phone)"
proof -
  note ann = simulateBooking_announcements[of vendor env ps w]
  note att = simulateBooking_attempts[of env vendor ps w]
  have list: "booking_channels vendor =
     filter (\<lambda>ch. ch = phone \<or> (ch = web_chat \<and> hasWebChat vendor)
                  \<or> (ch = whatsapp \<and> hasWhatsApp vendor)
                  \<or> (ch = sms \<and> hasSms vendor = Some True))
       [phone, web_chat, whatsapp, sms]"
    by (simp add: booking_channels_def truthy_def)
  have first: "hd (booking_channels vendor) = phone"
    by (simp add: booking_channels_def)
  have only: "booking_channels vendor = [phone]"
    if "\<not> hasWebChat vendor \<and> \<not> hasWhatsApp vendor \<and> hasSms vendor \<noteq> Some True"
    using that by (simp add: booking_channels_def truthy_def)
  note log = simulateBooking_entry_channels[of env vendor ps w]
  note res = simulateBooking_result_channel[of env vendor ps w]
  have one: "(\<forall>e \<in> set (booking_log (fst (simulateBooking env vendor ps w))).
         entry_channel e = ''phone'') \<and>
      booking_channel (fst (simulateBooking env vendor ps w)) = phone"
    if "\<not> hasWebChat vendor \<and> \<not> hasWhatsApp vendor \<and> hasSms vendor \<noteq> Some True"
    using log res only[OF that] by simp
  have ann1: "announcements (calls (snd (simulateBooking env vendor ps w))) = [announcement phone]"
    if "\<not> hasWebChat vendor \<and> \<not> hasWhatsApp vendor \<and> hasSms vendor \<noteq> Some True"
  proof -
    from ann obtain k where k: "0 < k"
      "announcements (calls (snd (simulateBooking env vendor ps w)))
         = map announcement (take k (booking_channels vendor))" by blast
    from k(1) have "take k [phone] = [phone]" by (cases k) simp_all
    with k(2) only[OF that] show ?thesis by simp
  qed
  have len: "length (booking_channels vendor) = 1"
    if "\<not> hasWebChat vendor \<and> \<not> hasWhatsApp vendor \<and> hasSms vendor \<noteq> Some True"
    using only[OF that] by simp
  from only len ann1 one
  have last: "\<not> hasWebChat vendor \<and> \<not> hasWhatsApp vendor \<and> hasSms vendor \<noteq> Some True \<longrightarrow>
      booking_channels vendor = [phone] \<and> length (booking_channels vendor) = 1 \<and>
      announcements (calls (snd (simulateBooking env vendor ps w))) = [announcement phone] \<and>
      (\<forall>e \<in> set (booking_log (fst (simulateBooking env vendor ps w))).
         entry_channel e = ''phone'') \<and>
      booking_channel (fst (simulateBooking env vendor ps w)) = phone"
    by blast
  have reach: "\<forall>j < length (booking_channels vendor).
      (\<forall>(c, i) \<in> set (zip (take j (booking_channels vendor))
                            (final_roll_indices (booking_channels vendor) (rcount w))).
         \<not> Math_random env i < successRate c vendor) \<longrightarrow>
      take (Suc j) (announcements (calls (snd (simulateBooking env vendor ps w))))
        = map announcement (take (Suc j) (booking_channels vendor))"
    using simulateBooking_reaches[of _ vendor w env ps] by blast
  show ?thesis
    by (intro conjI) (rule list first log res ann att[THEN conjunct1] att[THEN conjunct2] reach last)+
qed

lemma announcement_names:
  "announcement phone = ''Attempting booking via Phone Call...''"
  "announcement web_chat = ''Attempting booking via Website Chat...''"
  "announcement whatsapp = ''Attempting booking via WhatsApp...''"
  "announcement sms = ''Attempting booking via SMS...''"
  by (simp_all add: announcement_def channelName_def)

theorem simulateBooking_channel_list_witness:
  "booking_channels (sample_vendor\<lparr>hasWebChat := False, hasWhatsApp := False, hasSms := None\<rparr>)
     = [phone] \<and>
   set (map entry_channel
          (booking_log (fst (simulateBooking (sample_env (\<lambda>k. 0.9))
                    (sample_vendor\<lparr>hasWebChat := False, hasWhatsApp := False, hasSms := None\<rparr>)
                    sample_problem start)))) \<subseteq> {''phone''} \<and>
   booking_channel (fst (simulateBooking (sample_env (\<lambda>k. 0.9))
                    (sample_vendor\<lparr>hasWebChat := False, hasWhatsApp := False, hasSms := None\<rparr>)
                    sample_problem start)) = phone \<and>
   announcements (calls (snd (simulateBooking (sample_env (\<lambda>k. 0.9))
                    (sample_vendor\<lparr>hasWebChat := False, hasWhatsApp := False, hasSms := None\<rparr>)
                    sample_problem start))) = [''Attempting booking via Phone Call...''] \<and>
   booking_channels (sample_vendor\<lparr>hasWebChat := False, hasSms := None\<rparr>) = [phone, whatsapp] \<and>
   announcements (calls (snd (simulateBooking (sample_env (\<lambda>k. 0.9))
                    (sample_vendor\<lparr>hasWebChat := False, hasSms := None\<rparr>)
                    sample_problem start)))
     = [''Attempting booking via Phone Call...'', ''Attempting booking via WhatsApp...''] \<and>
   booking_channels sample_vendor = [phone, web_chat, whatsapp, sms] \<and>
   announcements (calls (snd (simulateBooking (sample_env (\<lambda>k. 0.9)) sample_vendor
                    sample_problem start)))
     = [''Attempting booking via Phone Call...'', ''Attempting booking via Website Chat...'',
        ''Attempting booking via WhatsApp...'', ''Attempting booking via SMS...'']"
proof -
  let ?env = "sample_env (\<lambda>k. 0.9)"
  let ?v0 = "sample_vendor\<lparr>hasWebChat := False, hasWhatsApp := False, hasSms := None\<rparr>"
  let ?v1 = "sample_vendor\<lparr>hasWebChat := False, hasSms := None\<rparr>"
  have rnd: "Math_random ?env i = 0.9" for i by (simp add: sample_env_def)
  have no: "\<not> (0.9 :: real) < successRate c v" for c v
    using successRate_below[of c v] by simp
  have fails: "\<forall>(c, i) \<in> S. \<not> Math_random ?env i < successRate c v" for S v
    unfolding rnd using no by simp
  have all: "announcements (calls (snd (simulateBooking ?env v sample_problem start)))
               = map announcement (booking_channels v)" for v
  proof -
    note T = simulateBooking_channel_list[of v ?env sample_problem start]
    obtain rest where ch: "booking_channels v = phone # rest"
      using booking_channels_phone_first by blast
    let ?j = "length rest"
    have j: "?j < length (booking_channels v)" "Suc ?j = length (booking_channels v)"
      using ch by simp_all
    note reach = T[THEN conjunct2, THEN conjunct2, THEN conjunct2, THEN conjunct2,
                   THEN conjunct2, THEN conjunct2, THEN conjunct2, THEN conjunct1]
    note pre = T[THEN conjunct2, THEN conjunct2, THEN conjunct2, THEN conjunct2, THEN conjunct1]
    from reach j(1) fails
    have t: "take (Suc ?j) (announcements (calls (snd (simulateBooking ?env v sample_problem start))))
        = map announcement (take (Suc ?j) (booking_channels v))" by blast
    from pre obtain k where k: "k \<le> length (booking_channels v)"
        "announcements (calls (snd (simulateBooking ?env v sample_problem start)))
          = map announcement (take k (booking_channels v))" by blast
    from k have "length (announcements (calls (snd (simulateBooking ?env v sample_problem start))))
          \<le> Suc ?j" using j(2) by simp
    with t j(2) show ?thesis by simp
  qed
  have flags: "\<not> hasWebChat ?v0 \<and> \<not> hasWhatsApp ?v0 \<and> hasSms ?v0 \<noteq> Some True"
    by simp
  from simulateBooking_channel_list[of ?v0 ?env sample_problem start,
         THEN conjunct2, THEN conjunct2, THEN conjunct2, THEN conjunct2,
         THEN conjunct2, THEN conjunct2, THEN conjunct2, THEN conjunct2] flags
  have a: "booking_channels ?v0 = [phone] \<and>
      (\<forall>e \<in> set (booking_log (fst (simulateBooking ?env ?v0 sample_problem start))).
          entry_channel e = ''phone'') \<and>
      booking_channel (fst (simulateBooking ?env ?v0 sample_problem start)) = phone"
    by blast
  have l1: "booking_channels ?v1 = [phone, whatsapp]"
    by (simp add: booking_channels_def sample_vendor_def truthy_def)
  have l2: "booking_channels sample_vendor = [phone, web_chat, whatsapp, sms]"
    by (simp add: booking_channels_def sample_vendor_def truthy_def)
  from a have a1: "booking_channels ?v0 = [phone]"
    and a2: "set (map entry_channel
          (booking_log (fst (simulateBooking ?env ?v0 sample_problem start)))) \<subseteq> {''phone''}"
    and a3: "booking_channel (fst (simulateBooking ?env ?v0 sample_problem start)) = phone"
    by auto
  have b0: "announcements (calls (snd (simulateBooking ?env ?v0 sample_problem start)))
              = [''Attempting booking via Phone Call...'']"
    unfolding all[of ?v0] a1 by (simp add: announcement_names)
  have b1: "announcements (calls (snd (simulateBooking ?env ?v1 sample_problem start)))
     = [''Attempting booking via Phone Call...'', ''Attempting booking via WhatsApp...'']"
    unfolding all[of ?v1] l1 by (simp add: announcement_names)
  have b2: "announcements (calls (snd (simulateBooking ?env sample_vendor sample_problem start)))
     = [''Attempting booking via Phone Call...'', ''Attempting booking via Website Chat...'',
        ''Attempting booking via WhatsApp...'', ''Attempting booking via SMS...'']"
    unfolding all[of sample_vendor] l2 by (simp add: announcement_names)
  show ?thesis
    by (intro conjI) (rule a1 a2 a3 b0 l1 b1 l2 b2)+
qed

text \<open>
  C3. When the result of \<open>simulateBooking\<close> has the status \<open>confirmed\<close>, its
  \<open>scheduledStartISO\<close> and its \<open>confirmationNumber\<close> are present and not empty.
\<close>

theorem simulateBooking_confirmed_fields:
  "booking_status (fst (simulateBooking env vendor ps w)) = confirmed \<Longrightarrow>
   \<exists>s c. scheduledStartISO (fst (simulateBooking env vendor ps w)) = Some s \<and> s \<noteq> [] \<and>
         confirmationNumber (fst (simulateBooking env vendor ps w)) = Some c \<and> c \<noteq> []"
proof -
  assume conf: "booking_status (fst (simulateBooking env vendor ps w)) = confirmed"
  let ?st0 = "\<lparr> rcount = rcount w, dcount = dcount w, entries = [], calls = [] \<rparr>"
  show ?thesis
  proof (cases "fst (booking_loop env vendor ps (booking_channels vendor) ?st0)")
    case None
    with simulateBooking_cases[of env vendor ps w]
    have "booking_status (fst (simulateBooking env vendor ps w)) = booking_failed"
      by (metis BookingResult.select_convs(1) option.simps(4))
    with conf show ?thesis by simp
  next
    case (Some r)
    from booking_loop_Some[OF Some] simulateBooking_cases[of env vendor ps w] Some
    show ?thesis by simp
  qed
qed

lemma sample_vendor_channels:
  "booking_channels sample_vendor = [phone, web_chat, whatsapp, sms]"
  by (simp add: booking_channels_def sample_vendor_def truthy_def)

lemma sample_rolls:
  "zip (booking_channels sample_vendor)
       (final_roll_indices (booking_channels sample_vendor) (rcount start))
     = [(phone, 4), (web_chat, 11), (whatsapp, 17), (sms, 23)]"
  by (simp add: sample_vendor_channels start_def scripts_of_def PHONE_SCRIPTS_def
        WEB_CHAT_MESSAGES_def WHATSAPP_MESSAGES_def SMS_MESSAGES_def)

lemma sample_rates:
  "successRate phone sample_vendor = 0.85" "successRate web_chat sample_vendor = 0.85"
  "successRate whatsapp sample_vendor = 0.85" "successRate sms sample_vendor = 0.85"
  by (simp_all add: successRate_def sample_vendor_def truthy_def)

lemma sample_times:
  "\<forall>st. \<exists>s. fst (generateAppointmentTime (sample_env rnd) (eta sample_vendor) st) = Inr s"
  by (simp add: sample_appointment sample_vendor_def)

theorem simulateBooking_confirmed_fields_witness:
  "booking_status (fst (simulateBooking (sample_env (\<lambda>k. 0)) sample_vendor sample_problem start))
     = confirmed \<and>
   (\<exists>s c. scheduledStartISO (fst (simulateBooking (sample_env (\<lambda>k. 0)) sample_vendor
                                    sample_problem start)) = Some s \<and> s \<noteq> [] \<and>
          confirmationNumber (fst (simulateBooking (sample_env (\<lambda>k. 0)) sample_vendor
                                     sample_problem start)) = Some c \<and> c \<noteq> [])"
proof -
  let ?env = "sample_env (\<lambda>k. 0)"
  let ?st0 = "\<lparr> rcount = rcount start, dcount = dcount start, entries = [], calls = [] \<rparr>"
  have "Math_random ?env (last (final_roll_indices ([] @ [phone]) (rcount ?st0)))
          < successRate phone sample_vendor"
    by (simp add: sample_rates sample_env_def)
  from booking_loop_first_success[where pre="[]" and ch=phone and rest="[web_chat, whatsapp, sms]"
         and env="?env" and vendor=sample_vendor and ps=sample_problem and st="?st0",
         OF _ this sample_times]
  obtain r where r: "fst (booking_loop ?env sample_vendor sample_problem
                            [phone, web_chat, whatsapp, sms] ?st0) = Some r"
    by auto
  from booking_loop_Some[OF r] have "booking_status r = confirmed" by simp
  with r simulateBooking_cases[of ?env sample_vendor sample_problem start]
  have c: "booking_status (fst (simulateBooking ?env sample_vendor sample_problem start)) = confirmed"
    by (simp add: sample_vendor_channels)
  from simulateBooking_confirmed_fields[OF c] c show ?thesis by simp
qed


subsection \<open>Failure of every channel, and errors\<close>

lemma booking_loop_keeps_entries:
  "set (entries st) \<subseteq> set (entries (snd (booking_loop env vendor ps cs st)))"
  using booking_loop_entries[where env=env and vendor=vendor and ps=ps and cs=cs and st=st]
  by auto

text \<open>
  C5. When the roll of the last step fails on every channel of the list, \<open>simulateBooking\<close>
  returns the result with the status \<open>failed\<close>, the channel \<open>phone\<close> (the first of the list),
  no date, no confirmation number and the fixed notes. An error thrown by a channel attempt
  is caught: the loop adds an entry with the action "error", the text of the error and
  \<open>success = false\<close> to the log, passes it to \<open>onLogUpdate\<close> and goes on with the next
  channel; the entry is in the log at the end of the loop.
\<close>

theorem simulateBooking_all_channels_fail:
  "((\<forall>(ch, j) \<in> set (zip (booking_channels vendor)
                         (final_roll_indices (booking_channels vendor) (rcount w))).
       \<not> Math_random env j < successRate ch vendor) \<longrightarrow>
    fst (simulateBooking env vendor ps w) =
      \<lparr> booking_status = booking_failed, booking_channel = phone, scheduledStartISO = None,
        booking_notes = ''Unable to complete automatic booking. Please call the vendor directly to schedule your appointment.'',
        booking_log = entries (snd (simulateBooking env vendor ps w)),
        confirmationNumber = None \<rparr> \<and>
    hd (booking_channels vendor) = phone) \<and>
   (\<forall>ch rest st e st2.
      simulateChannel env ch vendor ps
        (onAttemptUpdate (''Attempting booking via '' @ channelName ch @ ''...'') st) = (Inl e, st2) \<longrightarrow>
      booking_loop env vendor ps (ch # rest) st =
        booking_loop env vendor ps rest
          (st2\<lparr>dcount := dcount st2 + 1, entries := entries st2 @ [error_entry env ch e st2],
               calls := calls st2 @ [LogUpdate (error_entry env ch e st2)]\<rparr>) \<and>
      error_entry env ch e st2 \<in> set (entries (snd (booking_loop env vendor ps (ch # rest) st))) \<and>
      entry_channel (error_entry env ch e st2) = channel_str ch \<and>
      action (error_entry env ch e st2) = ''error'' \<and>
      entry_message (error_entry env ch e st2) = ''Booking attempt failed: '' @ error_str e \<and>
      \<not> success (error_entry env ch e st2))"
proof -
  let ?st0 = "\<lparr> rcount = rcount w, dcount = dcount w, entries = [], calls = [] \<rparr>"
  have a: "fst (simulateBooking env vendor ps w) =
      \<lparr> booking_status = booking_failed, booking_channel = phone, scheduledStartISO = None,
        booking_notes = ''Unable to complete automatic booking. Please call the vendor directly to schedule your appointment.'',
        booking_log = entries (snd (simulateBooking env vendor ps w)),
        confirmationNumber = None \<rparr>"
    if h: "\<forall>(ch, j) \<in> set (zip (booking_channels vendor)
                         (final_roll_indices (booking_channels vendor) (rcount w))).
             \<not> Math_random env j < successRate ch vendor"
  proof -
    from h have "\<forall>(ch, j) \<in> set (zip (booking_channels vendor)
                         (final_roll_indices (booking_channels vendor) (rcount ?st0))).
             \<not> Math_random env j < successRate ch vendor" by simp
    from booking_loop_all_fail[OF this]
    have "fst (booking_loop env vendor ps (booking_channels vendor) ?st0) = None" .
    with simulateBooking_cases[of env vendor ps w] show ?thesis by simp
  qed
  have b: "hd (booking_channels vendor) = phone"
    by (simp add: booking_channels_def)
  have c: "booking_loop env vendor ps (ch # rest) st =
        booking_loop env vendor ps rest
          (st2\<lparr>dcount := dcount st2 + 1, entries := entries st2 @ [error_entry env ch e st2],
               calls := calls st2 @ [LogUpdate (error_entry env ch e st2)]\<rparr>) \<and>
      error_entry env ch e st2 \<in> set (entries (snd (booking_loop env vendor ps (ch # rest) st))) \<and>
      entry_channel (error_entry env ch e st2) = channel_str ch \<and>
      action (error_entry env ch e st2) = ''error'' \<and>
      entry_message (error_entry env ch e st2) = ''Booking attempt failed: '' @ error_str e \<and>
      \<not> success (error_entry env ch e st2)"
    if t: "simulateChannel env ch vendor ps
        (onAttemptUpdate (''Attempting booking via '' @ channelName ch @ ''...'') st) = (Inl e, st2)"
    for ch rest st e st2
  proof -
    let ?st3 = "st2\<lparr>dcount := dcount st2 + 1, entries := entries st2 @ [error_entry env ch e st2],
               calls := calls st2 @ [LogUpdate (error_entry env ch e st2)]\<rparr>"
    note step = booking_loop_catch[OF t, of rest]
    have "error_entry env ch e st2 \<in> set (entries ?st3)" by simp
    with booking_loop_keeps_entries[of ?st3 env vendor ps rest]
    have "error_entry env ch e st2 \<in> set (entries (snd (booking_loop env vendor ps rest ?st3)))"
      by blast
    with step show ?thesis by (simp add: error_entry_def)
  qed
  from a b c show ?thesis by blast
qed

lemma last_day_phone_throws:
  "fst (simulateChannel (last_day_env rolls_phone_only) phone sample_vendor sample_problem
          (onAttemptUpdate (''Attempting booking via '' @ channelName phone @ ''...'')
             \<lparr> rcount = 0, dcount = 0, entries = [], calls = [] \<rparr>))
     = Inl (RangeError ''Invalid time value'')"
proof -
  let ?env = "last_day_env rolls_phone_only"
  let ?st1 = "onAttemptUpdate (''Attempting booking via '' @ channelName phone @ ''...'')
             \<lparr> rcount = 0, dcount = 0, entries = [], calls = [] \<rparr>"
  have "Math_random ?env (rcount ?st1 + length (scripts_of phone)) < successRate phone sample_vendor"
    by (simp add: last_day_env_def rolls_phone_only_def scripts_of_def PHONE_SCRIPTS_def sample_rates)
  from simulateChannel_success[OF this, where ps=sample_problem]
  show ?thesis
    by (auto simp: last_day_appointment sample_vendor_def)
qed

theorem simulateBooking_all_channels_fail_witness:
  "fst (simulateBooking (sample_env rolls_all_fail) sample_vendor sample_problem start) =
      \<lparr> booking_status = booking_failed, booking_channel = phone, scheduledStartISO = None,
        booking_notes = ''Unable to complete automatic booking. Please call the vendor directly to schedule your appointment.'',
        booking_log = entries (snd (simulateBooking (sample_env rolls_all_fail)
                                      sample_vendor sample_problem start)),
        confirmationNumber = None \<rparr> \<and>
   (\<exists>st2. simulateChannel (last_day_env rolls_phone_only) phone sample_vendor sample_problem
            (onAttemptUpdate (''Attempting booking via '' @ channelName phone @ ''...'')
               \<lparr> rcount = 0, dcount = 0, entries = [], calls = [] \<rparr>)
          = (Inl (RangeError ''Invalid time value''), st2) \<and>
        error_entry (last_day_env rolls_phone_only) phone (RangeError ''Invalid time value'') st2
          \<in> set (booking_log (fst (simulateBooking (last_day_env rolls_phone_only)
                                      sample_vendor sample_problem start))) \<and>
        \<not> success (error_entry (last_day_env rolls_phone_only) phone
                     (RangeError ''Invalid time value'') st2)) \<and>
   booking_status (fst (simulateBooking (last_day_env rolls_phone_only)
                          sample_vendor sample_problem start)) = booking_failed"
proof -
  let ?ea = "sample_env rolls_all_fail"
  let ?eb = "last_day_env rolls_phone_only"
  let ?st0 = "\<lparr> rcount = 0, dcount = 0, entries = [], calls = [] \<rparr> :: bstate"
  let ?st1 = "onAttemptUpdate (''Attempting booking via '' @ channelName phone @ ''...'') ?st0"
  let ?err = "RangeError ''Invalid time value''"
  have h: "\<forall>(ch, j) \<in> set (zip (booking_channels sample_vendor)
                         (final_roll_indices (booking_channels sample_vendor) (rcount start))).
             \<not> Math_random ?ea j < successRate ch sample_vendor"
    unfolding sample_rolls by (simp add: sample_rates sample_env_def rolls_all_fail_def)
  note a = simulateBooking_all_channels_fail[of sample_vendor start ?ea sample_problem,
             THEN conjunct1, THEN mp, OF h, THEN conjunct1]
  obtain st2 where st2: "simulateChannel ?eb phone sample_vendor sample_problem ?st1 = (Inl ?err, st2)"
    using last_day_phone_throws
    by (cases "simulateChannel ?eb phone sample_vendor sample_problem ?st1") simp
  note b = simulateBooking_all_channels_fail[of sample_vendor start ?eb sample_problem,
             THEN conjunct2, rule_format, OF st2, of "[web_chat, whatsapp, sms]"]
  let ?st3 = "st2\<lparr>dcount := dcount st2 + 1, entries := entries st2 @ [error_entry ?eb phone ?err st2],
                  calls := calls st2 @ [LogUpdate (error_entry ?eb phone ?err st2)]\<rparr>"
  note b1 = b[THEN conjunct1]
  note b2 = b[THEN conjunct2, THEN conjunct1]
  have st0: "\<lparr> rcount = rcount start, dcount = dcount start, entries = [], calls = [] \<rparr> = ?st0"
    by (simp add: start_def)
  note cases = simulateBooking_cases[of ?eb sample_vendor sample_problem start,
                 unfolded sample_vendor_channels st0]
  have logged: "error_entry ?eb phone ?err st2
          \<in> set (booking_log (fst (simulateBooking ?eb sample_vendor sample_problem start)))"
    unfolding simulateBooking_log cases[THEN conjunct2] by (rule b2)
  from simulateChannel_rcount[of ?eb phone sample_vendor sample_problem ?st1] st2
  have r2: "rcount ?st3 = 6"
    by (simp add: scripts_of_def PHONE_SCRIPTS_def)
  have idx: "zip [web_chat, whatsapp, sms] (final_roll_indices [web_chat, whatsapp, sms] 6)
               = [(web_chat, 11), (whatsapp, 17), (sms, 23)]"
    by (simp add: scripts_of_def WEB_CHAT_MESSAGES_def WHATSAPP_MESSAGES_def SMS_MESSAGES_def)
  have "\<forall>(ch, j) \<in> set (zip [web_chat, whatsapp, sms]
                            (final_roll_indices [web_chat, whatsapp, sms] (rcount ?st3))).
          \<not> Math_random ?eb j < successRate ch sample_vendor"
    unfolding r2 idx by (simp add: sample_rates last_day_env_def rolls_phone_only_def)
  from booking_loop_all_fail[OF this]
  have "fst (booking_loop ?eb sample_vendor sample_problem [web_chat, whatsapp, sms] ?st3) = None" .
  then have none: "fst (booking_loop ?eb sample_vendor sample_problem
                      [phone, web_chat, whatsapp, sms] ?st0) = None"
    by (simp only: b1)
  have failed: "booking_status (fst (simulateBooking ?eb sample_vendor sample_problem start))
                  = booking_failed"
    using cases[THEN conjunct1] unfolding none by simp
  from b have ns: "\<not> success (error_entry ?eb phone ?err st2)" by blast
  show ?thesis
    by (intro conjI exI[of _ st2]) (rule a st2 logged ns failed)+
qed


text \<open>
  C9. For the sample vendor, whose \<open>hasSms\<close> is true, and random numbers with which the
  rolls of \<open>phone\<close>, \<open>web_chat\<close> and \<open>whatsapp\<close> fail and the roll of \<open>sms\<close> succeeds,
  \<open>simulateBooking\<close> returns a confirmed result whose channel is \<open>sms\<close>; \<open>sms\<close> is not one
  of the channels that the type of \<open>BookingResult.channel\<close> declares.
\<close>

theorem simulateBooking_sms_outside_declared:
  "hasSms sample_vendor = Some True \<and>
   zip (booking_channels sample_vendor)
       (final_roll_indices (booking_channels sample_vendor) (rcount start))
     = [(phone, 4), (web_chat, 11), (whatsapp, 17), (sms, 23)] \<and>
   \<not> rolls_until_sms 4 < successRate phone sample_vendor \<and>
   \<not> rolls_until_sms 11 < successRate web_chat sample_vendor \<and>
   \<not> rolls_until_sms 17 < successRate whatsapp sample_vendor \<and>
   rolls_until_sms 23 < successRate sms sample_vendor \<and>
   booking_status (fst (simulateBooking (sample_env rolls_until_sms)
                          sample_vendor sample_problem start)) = confirmed \<and>
   booking_channel (fst (simulateBooking (sample_env rolls_until_sms)
                           sample_vendor sample_problem start)) = sms \<and>
   sms \<notin> BookingResult_channel"
proof -
  let ?env = "sample_env rolls_until_sms"
  let ?st0 = "\<lparr> rcount = rcount start, dcount = dcount start, entries = [], calls = [] \<rparr>"
  have rnd: "Math_random ?env k = rolls_until_sms k" for k
    by (simp add: sample_env_def)
  have rolls: "\<not> rolls_until_sms 4 < successRate phone sample_vendor"
    "\<not> rolls_until_sms 11 < successRate web_chat sample_vendor"
    "\<not> rolls_until_sms 17 < successRate whatsapp sample_vendor"
    "rolls_until_sms 23 < successRate sms sample_vendor"
    by (simp_all add: rolls_until_sms_def sample_rates)
  have idx: "final_roll_indices [phone, web_chat, whatsapp, sms] (rcount ?st0) = [4, 11, 17, 23]"
    "final_roll_indices [phone, web_chat, whatsapp] (rcount ?st0) = [4, 11, 17]"
    by (simp_all add: start_def scripts_of_def PHONE_SCRIPTS_def
        WEB_CHAT_MESSAGES_def WHATSAPP_MESSAGES_def SMS_MESSAGES_def)
  have pre: "\<forall>(c, j) \<in> set (zip [phone, web_chat, whatsapp]
                 (final_roll_indices [phone, web_chat, whatsapp] (rcount ?st0))).
               \<not> Math_random ?env j < successRate c sample_vendor"
    unfolding idx using rolls by (simp add: rnd)
  have l: "last (final_roll_indices ([phone, web_chat, whatsapp] @ [sms]) (rcount ?st0)) = 23"
    by (simp add: start_def scripts_of_def PHONE_SCRIPTS_def
        WEB_CHAT_MESSAGES_def WHATSAPP_MESSAGES_def SMS_MESSAGES_def)
  have roll: "Math_random ?env (last (final_roll_indices ([phone, web_chat, whatsapp] @ [sms])
                (rcount ?st0))) < successRate sms sample_vendor"
    unfolding l rnd by (rule rolls(4))
  from booking_loop_first_success[where pre="[phone, web_chat, whatsapp]" and ch=sms and rest="[]"
         and env="?env" and vendor=sample_vendor and ps=sample_problem and st="?st0",
         OF pre roll sample_times]
  obtain r where r: "fst (booking_loop ?env sample_vendor sample_problem
                            [phone, web_chat, whatsapp, sms] ?st0) = Some r"
    "booking_channel r = sms"
    by auto
  from booking_loop_Some[OF r(1)] have "booking_status r = confirmed" by simp
  with r simulateBooking_cases[of ?env sample_vendor sample_problem start]
  have res: "booking_status (fst (simulateBooking ?env sample_vendor sample_problem start)) = confirmed"
    "booking_channel (fst (simulateBooking ?env sample_vendor sample_problem start)) = sms"
    by (simp_all add: sample_vendor_channels)
  have flag: "hasSms sample_vendor = Some True" by (simp add: sample_vendor_def)
  have out: "sms \<notin> BookingResult_channel" by (simp add: BookingResult_channel_def)
  show ?thesis
    by (intro conjI) (rule flag sample_rolls rolls res out)+
qed


section \<open>Properties of the outreach simulator\<close>

subsection \<open>One round\<close>

lemma update_last_snoc [simp]: "update_last f (xs @ [x]) = xs @ [f x]"
  by (simp add: update_last_def)

lemma template_exists:
  "\<exists>t. map_of OUTREACH_MESSAGES (CHANNELS ! (attempt mod length CHANNELS)) = Some t"
proof -
  have "attempt mod 4 < 4" by simp
  then have "attempt mod 4 = 0 \<or> attempt mod 4 = 1 \<or> attempt mod 4 = 2 \<or> attempt mod 4 = 3"
    by arith
  then show ?thesis
    by (auto simp: CHANNELS_def OUTREACH_MESSAGES_def)
qed

lemma outreach_loop_done:
  "\<not> attempt < maxAttempts cfg \<Longrightarrow>
   outreach_loop env cfg ps attempt cur w
     = ([cur\<lparr>outreachStatus := outreach_failed\<rparr>], Inr (cur\<lparr>outreachStatus := outreach_failed\<rparr>))"
  by (subst outreach_loop.simps) (simp add: Let_def)

lemma outreach_loop_fail:
  assumes "attempt < maxAttempts cfg"
    and "\<not> Math_random env (rcount w) < outreachSuccessRate cfg"
  shows "outreach_loop env cfg ps attempt cur w =
     (with_attempt cur (attempt_sent env ps attempt w)
      # with_attempt cur ((attempt_sent env ps attempt w)\<lparr>status := delivered\<rparr>)
      # with_attempt cur ((attempt_sent env ps attempt w)\<lparr>status := attempt_failed\<rparr>)
      # fst (outreach_loop env cfg ps (attempt + 1)
               (with_attempt cur ((attempt_sent env ps attempt w)\<lparr>status := attempt_failed\<rparr>))
               (next_world w)),
      snd (outreach_loop env cfg ps (attempt + 1)
               (with_attempt cur ((attempt_sent env ps attempt w)\<lparr>status := attempt_failed\<rparr>))
               (next_world w)))"
proof -
  obtain t where t: "map_of OUTREACH_MESSAGES (CHANNELS ! (attempt mod length CHANNELS)) = Some t"
    using template_exists by blast
  show ?thesis
    using assms
    by (subst outreach_loop.simps)
       (simp add: t Let_def timestamp_now_def attempt_sent_def with_attempt_def next_world_def
             split: prod.splits)
qed

lemma outreach_loop_success:
  assumes "attempt < maxAttempts cfg"
    and "Math_random env (rcount w) < outreachSuccessRate cfg"
    and "js_index ETA_PATTERNS \<lfloor>Math_random env (rcount w + 1) * real (length ETA_PATTERNS)\<rfloor> = Some (e, f)"
  shows "outreach_loop env cfg ps attempt cur w =
     ([with_attempt cur (attempt_sent env ps attempt w),
       with_attempt cur ((attempt_sent env ps attempt w)\<lparr>status := delivered\<rparr>),
       (with_attempt cur ((attempt_sent env ps attempt w)\<lparr>status := replied,
                                                           response := Some (reply_text e f)\<rparr>))
         \<lparr>eta := Some e, serviceFee := Some f, outreachStatus := completed\<rparr>],
      Inr ((with_attempt cur ((attempt_sent env ps attempt w)\<lparr>status := replied,
                                                           response := Some (reply_text e f)\<rparr>))
         \<lparr>eta := Some e, serviceFee := Some f, outreachStatus := completed\<rparr>))"
proof -
  obtain t where t: "map_of OUTREACH_MESSAGES (CHANNELS ! (attempt mod length CHANNELS)) = Some t"
    using template_exists by blast
  show ?thesis
    using assms
    by (subst outreach_loop.simps)
       (simp add: t Let_def timestamp_now_def attempt_sent_def with_attempt_def reply_text_def)
qed

lemma outreach_loop_throw:
  assumes "attempt < maxAttempts cfg"
    and "Math_random env (rcount w) < outreachSuccessRate cfg"
    and "js_index ETA_PATTERNS \<lfloor>Math_random env (rcount w + 1) * real (length ETA_PATTERNS)\<rfloor> = None"
  shows "outreach_loop env cfg ps attempt cur w =
     ([with_attempt cur (attempt_sent env ps attempt w),
       with_attempt cur ((attempt_sent env ps attempt w)\<lparr>status := delivered\<rparr>)],
      Inl (TypeError []))"
proof -
  obtain t where t: "map_of OUTREACH_MESSAGES (CHANNELS ! (attempt mod length CHANNELS)) = Some t"
    using template_exists by blast
  show ?thesis
    using assms
    by (subst outreach_loop.simps)
       (simp add: t Let_def timestamp_now_def attempt_sent_def with_attempt_def)
qed

lemma js_index_nonempty:
  assumes "js_index ETA_PATTERNS i = Some (e, f)"
  shows "e \<noteq> []"
proof -
  from assms have i: "0 \<le> i" "nat i < length ETA_PATTERNS" "ETA_PATTERNS ! nat i = (e, f)"
    by (auto simp: js_index_def split: if_splits)
  then have "(e, f) \<in> set ETA_PATTERNS" by (metis nth_mem)
  then show ?thesis by (auto simp: ETA_PATTERNS_def)
qed


lemma with_attempt_fields [simp]:
  "outreachLog (with_attempt cur a) = outreachLog cur @ [a]"
  "outreachStatus (with_attempt cur a) = outreachStatus cur"
  "eta (with_attempt cur a) = eta cur"
  "serviceFee (with_attempt cur a) = serviceFee cur"
  by (simp_all add: with_attempt_def)

lemma attempt_sent_fields [simp]:
  "channel (attempt_sent env ps attempt w) = CHANNELS ! (attempt mod length CHANNELS)"
  "status (attempt_sent env ps attempt w) = sent"
  by (simp_all add: attempt_sent_def)

lemma next_world_fields [simp]:
  "rcount (next_world w) = rcount w + 1"
  "dcount (next_world w) = dcount w + 1"
  by (simp_all add: next_world_def)

lemma outreach_loop_completed:
  "outreachStatus cur \<noteq> completed \<Longrightarrow>
   (\<forall>s \<in> set (fst (outreach_loop env cfg ps attempt cur w)).
      outreachStatus s = completed \<longrightarrow>
      (\<exists>e. eta s = Some e \<and> e \<noteq> []) \<and> (\<exists>f. serviceFee s = Some f)) \<and>
   (\<forall>v'. snd (outreach_loop env cfg ps attempt cur w) = Inr v' \<longrightarrow>
      outreachStatus v' = completed \<longrightarrow>
      (\<exists>e. eta v' = Some e \<and> e \<noteq> []) \<and> (\<exists>f. serviceFee v' = Some f))"
proof (induction "maxAttempts cfg - attempt" arbitrary: attempt cur w)
  case 0
  then have "\<not> attempt < maxAttempts cfg" by simp
  then show ?case by (simp add: outreach_loop_done)
next
  case (Suc k)
  then have lt: "attempt < maxAttempts cfg" by simp
  show ?case
  proof (cases "Math_random env (rcount w) < outreachSuccessRate cfg")
    case False
    let ?cur' = "with_attempt cur ((attempt_sent env ps attempt w)\<lparr>status := attempt_failed\<rparr>)"
    from Suc.hyps(2) have k: "k = maxAttempts cfg - (attempt + 1)" by simp
    have "outreachStatus ?cur' \<noteq> completed" using Suc.prems by simp
    from Suc.hyps(1)[OF k this, of "next_world w"] Suc.prems show ?thesis
      by (simp add: outreach_loop_fail[OF lt False])
  next
    case True
    show ?thesis
    proof (cases "js_index ETA_PATTERNS \<lfloor>Math_random env (rcount w + 1) * real (length ETA_PATTERNS)\<rfloor>")
      case None
      with Suc.prems show ?thesis
        by (simp add: outreach_loop_throw[OF lt True None])
    next
      case (Some p)
      obtain e f where p: "p = (e, f)" by (cases p)
      from Some p have idx: "js_index ETA_PATTERNS \<lfloor>Math_random env (rcount w + 1) * real (length ETA_PATTERNS)\<rfloor> = Some (e, f)"
        by simp
      from js_index_nonempty[OF idx] Suc.prems show ?thesis
        by (simp add: outreach_loop_success[OF lt True idx])
    qed
  qed
qed

text \<open>
  C4. In every run of \<open>simulateOutreach\<close>, each vendor value that \<open>onUpdate\<close> receives with
  the status \<open>completed\<close> has an \<open>eta\<close> that is present and not empty and a \<open>serviceFee\<close> that
  is present, and so has the vendor that the function returns.
\<close>

theorem simulateOutreach_completed_has_quote:
  "(\<forall>s \<in> set (fst (simulateOutreach env vendor ps config w)).
      outreachStatus s = completed \<longrightarrow>
      (\<exists>e. eta s = Some e \<and> e \<noteq> []) \<and> (\<exists>f. serviceFee s = Some f)) \<and>
   (\<forall>v'. snd (simulateOutreach env vendor ps config w) = Inr v' \<longrightarrow>
      outreachStatus v' = completed \<longrightarrow>
      (\<exists>e. eta v' = Some e \<and> e \<noteq> []) \<and> (\<exists>f. serviceFee v' = Some f))"
proof -
  let ?cur = "vendor\<lparr>outreachStatus := in_progress\<rparr>"
  have "outreachStatus ?cur \<noteq> completed" by simp
  from outreach_loop_completed[OF this, of env "finalConfig config" ps 0 w]
  show ?thesis
    by (simp add: simulateOutreach_def Let_def split: prod.splits)
qed

lemma sample_first_pattern:
  "js_index ETA_PATTERNS \<lfloor>Math_random (sample_env (\<lambda>k. 0)) (rcount start + 1) * real (length ETA_PATTERNS)\<rfloor>
     = Some (''Today 2-4 PM'', 120)"
  by (simp add: js_index_def sample_env_def ETA_PATTERNS_def)

lemma default_config:
  "maxAttempts (finalConfig no_config) = 3" "outreachSuccessRate (finalConfig no_config) = 0.8"
  by (simp_all add: finalConfig_def no_config_def DEFAULT_CONFIG_def)

theorem simulateOutreach_completed_has_quote_witness:
  "\<exists>v'. snd (simulateOutreach (sample_env (\<lambda>k. 0)) (sample_vendor\<lparr>eta := None, serviceFee := None\<rparr>)
                sample_problem no_config start) = Inr v' \<and>
        v' \<in> set (fst (simulateOutreach (sample_env (\<lambda>k. 0))
                         (sample_vendor\<lparr>eta := None, serviceFee := None\<rparr>)
                         sample_problem no_config start)) \<and>
        outreachStatus v' = completed \<and>
        (\<exists>e. eta v' = Some e \<and> e \<noteq> []) \<and> (\<exists>f. serviceFee v' = Some f)"
proof -
  let ?env = "sample_env (\<lambda>k. 0)"
  let ?v = "sample_vendor\<lparr>eta := None, serviceFee := None\<rparr>"
  let ?cur = "?v\<lparr>outreachStatus := in_progress\<rparr>"
  have lt: "0 < maxAttempts (finalConfig no_config)" by (simp add: default_config)
  have roll: "Math_random ?env (rcount start) < outreachSuccessRate (finalConfig no_config)"
    by (simp add: default_config sample_env_def)
  note run = outreach_loop_success[OF lt roll sample_first_pattern, of sample_problem ?cur]
  let ?v' = "(with_attempt ?cur ((attempt_sent ?env sample_problem 0 start)
                 \<lparr>status := replied, response := Some (reply_text ''Today 2-4 PM'' 120)\<rparr>))
               \<lparr>eta := Some ''Today 2-4 PM'', serviceFee := Some 120, outreachStatus := completed\<rparr>"
  have res: "snd (simulateOutreach ?env ?v sample_problem no_config start) = Inr ?v'"
    and tr: "?v' \<in> set (fst (simulateOutreach ?env ?v sample_problem no_config start))"
    by (simp_all add: simulateOutreach_def Let_def run)
  have st: "outreachStatus ?v' = completed" by simp
  from simulateOutreach_completed_has_quote[of ?env ?v sample_problem no_config start,
         THEN conjunct2, rule_format, OF res st] res tr st
  show ?thesis by blast
qed

subsection \<open>The rounds of a run\<close>










section \<open>Properties of the mock directory vendors\<close>

text \<open>
  C8, as stated, fails: the identifiers do not depend on the category label. For the ZIP
  code 94102 the categories \<open>hvac\<close> and \<open>plumber\<close>, whose labels differ, give the same three
  identifiers.
\<close>

theorem getThumbtackMockVendors_ids_ignore_category:
  "categoryLabel hvac \<noteq> categoryLabel plumber \<and>
   map vendor_id (fst (getThumbtackMockVendors (sample_env (\<lambda>k. 0)) hvac ''94102'' start))
     = map vendor_id (fst (getThumbtackMockVendors (sample_env (\<lambda>k. 0)) plumber ''94102'' start))"
  by (simp add: getThumbtackMockVendors_def Let_def categoryLabel_def)

text \<open>
  C8, amended. For every category, ZIP code and sequence of random numbers,
  \<open>getThumbtackMockVendors\<close> returns exactly three vendors, all with the source \<open>thumbtack\<close>;
  their identifiers are \<open>thumbtack-pro-1-\<close>, \<open>thumbtack-pro-2-\<close> and \<open>thumbtack-pro-3-\<close>
  followed by the ZIP code, so they are determined by the ZIP code alone. The category label
  is the \<open>category\<close> field of each vendor and a part of its name.
\<close>

theorem getThumbtackMockVendors_ids:
  "length (fst (getThumbtackMockVendors env cat zipCode w)) = 3 \<and>
   map vendor_id (fst (getThumbtackMockVendors env cat zipCode w))
     = [''thumbtack-pro-1-'' @ zipCode, ''thumbtack-pro-2-'' @ zipCode,
        ''thumbtack-pro-3-'' @ zipCode] \<and>
   map source (fst (getThumbtackMockVendors env cat zipCode w))
     = [Some thumbtack, Some thumbtack, Some thumbtack] \<and>
   map vendor_category (fst (getThumbtackMockVendors env cat zipCode w))
     = [categoryLabel cat, categoryLabel cat, categoryLabel cat] \<and>
   map vendor_name (fst (getThumbtackMockVendors env cat zipCode w))
     = [categoryLabel cat @ '' Pros of '' @ zipCode, ''Advance '' @ categoryLabel cat @ '' Services'',
        categoryLabel cat @ '' Wizards'']"
  by (simp add: getThumbtackMockVendors_def Let_def)

end
